theory Spec2Isabelle
  imports Complex_Main "HOL-Library.AList"
begin

section \<open>JavaScript values used by the report stores\<close>

text \<open>
  Modelled from the spec: the type \<^verbatim>\<open>InspectionData\<close> of \<^verbatim>\<open>@/types/report\<close>, which is not
  among the sources. The client stores (\<^verbatim>\<open>useReportStore\<close>, \<^verbatim>\<open>useHomeReportStore\<close>) hold an
  inspection object that maps named fields to string or photo values, \<^verbatim>\<open>null\<close> when there
  is none. The merge code only tests such a value for truthiness and compares it with
  \<^verbatim>\<open>!==\<close>, so a photo value that is an object is represented by its reference. A
  property that is missing reads as \<^verbatim>\<open>undefined\<close>.
\<close>

datatype fval = FUndefined | FNull | FStr string | FRef nat

fun truthy :: "fval \<Rightarrow> bool" where
  "truthy FUndefined = False"
| "truthy FNull = False"
| "truthy (FStr s) = (s \<noteq> [])"
| "truthy (FRef r) = True"

text \<open>
  A plain JavaScript object: its own properties in insertion order. Assigning to a
  property that exists keeps its position, assigning to a new one appends it
  (\<open>AList.update\<close> does both).
\<close>

type_synonym obj = "(string \<times> fval) list"

definition obj_get :: "obj \<Rightarrow> string \<Rightarrow> fval" where
  "obj_get ob k = (case map_of ob k of None \<Rightarrow> FUndefined | Some v \<Rightarrow> v)"

definition obj_set :: "obj \<Rightarrow> string \<Rightarrow> fval \<Rightarrow> obj" where
  "obj_set ob k v = AList.update k v ob"

definition obj_keys :: "obj \<Rightarrow> string list" where
  "obj_keys ob = map fst ob"

text \<open>The object spread \<^verbatim>\<open>{ ...a, ...b }\<close>.\<close>

definition spread :: "obj \<Rightarrow> obj \<Rightarrow> obj" where
  "spread a b = fold (\<lambda>kv acc. AList.update (fst kv) (snd kv) acc) b a"

text \<open>\<^verbatim>\<open>a || b\<close> on strings, and on values that are a string or \<^verbatim>\<open>null\<close>.\<close>

definition str_or :: "string \<Rightarrow> string \<Rightarrow> string" where
  "str_or a b = (if a \<noteq> [] then a else b)"

definition null_truthy :: "string option \<Rightarrow> bool" where
  "null_truthy a = (case a of None \<Rightarrow> False | Some s \<Rightarrow> s \<noteq> [])"

definition null_or :: "string option \<Rightarrow> string option \<Rightarrow> string option" where
  "null_or a b = (if null_truthy a then a else b)"

text \<open>Reading an array at an index: \<^verbatim>\<open>undefined\<close> (here \<open>None\<close>) beyond its length.\<close>

definition at_index :: "'a list \<Rightarrow> nat \<Rightarrow> 'a option" where
  "at_index xs i = (if i < length xs then Some (xs ! i) else None)"

text \<open>Decimal rendering of a number inside a template string.\<close>

definition digit_char :: "nat \<Rightarrow> char" where
  "digit_char d = ''0123456789'' ! d"

fun show_nat :: "nat \<Rightarrow> string" where
  "show_nat n =
     (if 10 \<le> n then show_nat (n div 10) @ [digit_char (n mod 10)] else [digit_char n])"

definition show_int :: "int \<Rightarrow> string" where
  "show_int i = (if 0 \<le> i then show_nat (nat i) else CHR ''-'' # show_nat (nat (- i)))"

text \<open>
  \<^verbatim>\<open>String.prototype.trim\<close>: strips white space at both ends. A character is a code
  unit below 256; the white space there is tab, line feed, vertical tab, form feed,
  carriage return, space and no-break space.
\<close>

definition is_ws :: "char \<Rightarrow> bool" where
  "is_ws c = ((of_char c :: nat) \<in> set [9, 10, 11, 12, 13, 32, 160])"

definition trim :: "string \<Rightarrow> string" where
  "trim s = rev (dropWhile is_ws (rev (dropWhile is_ws s)))"

text \<open>
  The successive readings of \<^verbatim>\<open>Date.now()\<close> during one operation: reading \<open>0\<close> is the
  first call, reading \<open>1\<close> the second, and so on.
\<close>

type_synonym clock = "nat \<Rightarrow> int"

text \<open>A clock for examples: it reads \<open>t\<close> first and one millisecond more at each further
  reading.\<close>

definition ticking :: "int \<Rightarrow> clock" where
  "ticking t i = t + int i"

section \<open>Photo entries and the photo-sequence merge\<close>

text \<open>
  Modelled from the spec: the type \<^verbatim>\<open>PhotoData\<close> of \<^verbatim>\<open>@/types/report\<close>, which is not among
  the sources. Its properties are those of the literals in \<^verbatim>\<open>createInitialPhotos\<close> and
  \<^verbatim>\<open>mergePhotos\<close>: seven strings, two image payloads that are a string or \<^verbatim>\<open>null\<close>, the
  sequence of embedded sub-photos (whose elements the stores never look into, here an
  opaque string each) and the flag.
\<close>

record photo =
  photo_id :: string
  description :: string
  pn :: string
  serialNumber :: string
  partName :: string
  quantity :: string
  criticality :: string
  imageData :: "string option"
  editedImageData :: "string option"
  embeddedPhotos :: "string list"
  hasAdditionalParts :: bool

text \<open>\<^verbatim>\<open>Partial<PhotoData>\<close>: each property present or not.\<close>

record photo_patch =
  set_photo_id :: "string option"
  set_description :: "string option"
  set_pn :: "string option"
  set_serialNumber :: "string option"
  set_partName :: "string option"
  set_quantity :: "string option"
  set_criticality :: "string option"
  set_imageData :: "string option option"
  set_editedImageData :: "string option option"
  set_embeddedPhotos :: "string list option"
  set_hasAdditionalParts :: "bool option"

definition or_else :: "'a option \<Rightarrow> 'a \<Rightarrow> 'a" where
  "or_else x d = (case x of None \<Rightarrow> d | Some v \<Rightarrow> v)"

text \<open>\<^verbatim>\<open>{ ...p, ...data }\<close> for a photo and a partial photo.\<close>

definition spread_photo :: "photo \<Rightarrow> photo_patch \<Rightarrow> photo" where
  "spread_photo p d =
     \<lparr> photo_id = or_else (set_photo_id d) (photo_id p),
       description = or_else (set_description d) (description p),
       pn = or_else (set_pn d) (pn p),
       serialNumber = or_else (set_serialNumber d) (serialNumber p),
       partName = or_else (set_partName d) (partName p),
       quantity = or_else (set_quantity d) (quantity p),
       criticality = or_else (set_criticality d) (criticality p),
       imageData = or_else (set_imageData d) (imageData p),
       editedImageData = or_else (set_editedImageData d) (editedImageData p),
       embeddedPhotos = or_else (set_embeddedPhotos d) (embeddedPhotos p),
       hasAdditionalParts = or_else (set_hasAdditionalParts d) (hasAdditionalParts p) \<rparr>"

text \<open>The blank photo literal of \<^verbatim>\<open>createInitialPhotos\<close>, \<^verbatim>\<open>addPhoto\<close> and
  \<^verbatim>\<open>addPhotoToCategory\<close>, with the identifier it is given.\<close>

definition blank_photo :: "string \<Rightarrow> photo" where
  "blank_photo i =
     \<lparr> photo_id = i, description = [], pn = [], serialNumber = [], partName = [],
       quantity = [], criticality = [], imageData = None, editedImageData = None,
       embeddedPhotos = [], hasAdditionalParts = False \<rparr>"

text \<open>The object literal that \<^verbatim>\<open>mergePhotos\<close> pushes when both sides have an entry.\<close>

definition merge_photo :: "photo \<Rightarrow> photo \<Rightarrow> photo" where
  "merge_photo local server =
     \<lparr> photo_id = str_or (photo_id server) (photo_id local),
       description = str_or (str_or (description server) (description local)) [],
       pn = str_or (str_or (pn server) (pn local)) [],
       serialNumber = str_or (str_or (serialNumber server) (serialNumber local)) [],
       partName = str_or (str_or (partName server) (partName local)) [],
       quantity = str_or (str_or (quantity server) (quantity local)) [],
       criticality = str_or (str_or (criticality server) (criticality local)) [],
       imageData = null_or (imageData server) (imageData local),
       editedImageData = null_or (editedImageData server) (editedImageData local),
       embeddedPhotos =
         (if length (embeddedPhotos server) \<noteq> 0 then embeddedPhotos server
          else embeddedPhotos local),
       hasAdditionalParts = (hasAdditionalParts server \<or> hasAdditionalParts local) \<rparr>"

text \<open>One round of the \<^verbatim>\<open>for\<close> loop of \<^verbatim>\<open>mergePhotos\<close>, at index \<open>i\<close>.\<close>

definition mergePhotos_step :: "photo list \<Rightarrow> photo list \<Rightarrow> nat \<Rightarrow> photo list \<Rightarrow> photo list" where
  "mergePhotos_step localPhotos serverPhotos i merged =
     (case (at_index localPhotos i, at_index serverPhotos i) of
        (None, Some server) \<Rightarrow> merged @ [server]
      | (Some local, None) \<Rightarrow> merged @ [local]
      | (Some local, Some server) \<Rightarrow> merged @ [merge_photo local server]
      | (None, None) \<Rightarrow> merged)"

text \<open>\<^verbatim>\<open>mergePhotos\<close>, the same function in both stores.\<close>

definition mergePhotos :: "photo list \<Rightarrow> photo list \<Rightarrow> photo list" where
  "mergePhotos localPhotos serverPhotos =
     (if length serverPhotos = 0 then localPhotos
      else if length localPhotos = 0 then serverPhotos
      else fold (mergePhotos_step localPhotos serverPhotos)
             [0 ..< max (length localPhotos) (length serverPhotos)] [])"

section \<open>The flat report store\<close>

record translation_data =
  sourceLang :: string
  targetLang :: string
  translation_table :: "(string \<times> string) list"

text \<open>
  Modelled from the spec: the type \<^verbatim>\<open>AdditionalPart\<close> of \<^verbatim>\<open>@/types/report\<close>, which is not
  among the sources: an identifier plus descriptive fields. Here it is a plain object,
  read at \<^verbatim>\<open>id\<close>.
\<close>

type_synonym additional_part = obj

text \<open>The state of \<^verbatim>\<open>useReportStore\<close>.\<close>

record report_state =
  inspection :: obj
  photos :: "photo list"
  photoCount :: int
  additionalParts :: "additional_part list"
  conclusion :: string
  translation :: "translation_data option"
  lastLocalEdit :: int

text \<open>The argument of \<^verbatim>\<open>loadFromData\<close> and \<^verbatim>\<open>mergeFromData\<close>: every property optional.\<close>

record report_payload =
  p_inspection :: "obj option"
  p_photos :: "photo list option"
  p_conclusion :: "string option"

definition initialInspection :: obj where
  "initialInspection =
     [(''tag'', FStr []), (''modelo'', FStr []), (''sn'', FStr []), (''entrega'', FStr []),
      (''cliente'', FStr []), (''descricao'', FStr []), (''machineDown'', FStr []),
      (''data'', FStr []), (''dataFinal'', FStr []), (''osExecucao'', FStr []),
      (''inspetor'', FStr []), (''horimetro'', FStr []), (''machinePhoto'', FNull),
      (''horimetroPhoto'', FNull), (''serialPhoto'', FNull)]"

definition createInitialPhotos :: "int \<Rightarrow> photo list" where
  "createInitialPhotos count =
     map (\<lambda>i. blank_photo (''photo-init-'' @ show_nat i)) [0 ..< nat count]"

definition report_initial :: report_state where
  "report_initial =
     \<lparr> inspection = initialInspection, photos = createInitialPhotos 4, photoCount = 4,
       additionalParts = [], conclusion = [], translation = None, lastLocalEdit = 0 \<rparr>"

definition report_setLastLocalEdit :: "report_state \<Rightarrow> int \<Rightarrow> report_state" where
  "report_setLastLocalEdit s timestamp = s\<lparr>lastLocalEdit := timestamp\<rparr>"

definition report_updateInspection :: "report_state \<Rightarrow> obj \<Rightarrow> clock \<Rightarrow> report_state" where
  "report_updateInspection s d clk =
     s\<lparr>inspection := spread (inspection s) d, lastLocalEdit := clk 0\<rparr>"

definition report_setPhotos :: "report_state \<Rightarrow> photo list \<Rightarrow> clock \<Rightarrow> report_state" where
  "report_setPhotos s ps clk = s\<lparr>photos := ps, lastLocalEdit := clk 0\<rparr>"

definition report_addPhoto :: "report_state \<Rightarrow> clock \<Rightarrow> report_state" where
  "report_addPhoto s clk =
     s\<lparr>photos := photos s @ [blank_photo (''photo-'' @ show_int (clk 0))],
       photoCount := photoCount s + 1,
       lastLocalEdit := clk 1\<rparr>"

definition report_removePhoto :: "report_state \<Rightarrow> string \<Rightarrow> clock \<Rightarrow> report_state" where
  "report_removePhoto s i clk =
     s\<lparr>photos := filter (\<lambda>p. photo_id p \<noteq> i) (photos s),
       photoCount := photoCount s - 1,
       lastLocalEdit := clk 0\<rparr>"

definition report_updatePhoto :: "report_state \<Rightarrow> string \<Rightarrow> photo_patch \<Rightarrow> clock \<Rightarrow> report_state" where
  "report_updatePhoto s i d clk =
     s\<lparr>photos := map (\<lambda>p. if photo_id p = i then spread_photo p d else p) (photos s),
       lastLocalEdit := clk 0\<rparr>"

definition report_setPhotoCount :: "report_state \<Rightarrow> int \<Rightarrow> clock \<Rightarrow> report_state" where
  "report_setPhotoCount s count clk =
     (let currentPhotos = photos s;
          newPhotos = fold (\<lambda>i acc. acc[i := currentPhotos ! i])
                        [0 ..< nat (min (int (length currentPhotos)) count)]
                        (createInitialPhotos count)
      in s\<lparr>photos := newPhotos, photoCount := count, lastLocalEdit := clk 0\<rparr>)"

definition report_addAdditionalPart :: "report_state \<Rightarrow> additional_part \<Rightarrow> clock \<Rightarrow> report_state" where
  "report_addAdditionalPart s part clk =
     s\<lparr>additionalParts := additionalParts s @ [part], lastLocalEdit := clk 0\<rparr>"

definition report_removeAdditionalPart :: "report_state \<Rightarrow> string \<Rightarrow> clock \<Rightarrow> report_state" where
  "report_removeAdditionalPart s i clk =
     s\<lparr>additionalParts := filter (\<lambda>p. obj_get p ''id'' \<noteq> FStr i) (additionalParts s),
       lastLocalEdit := clk 0\<rparr>"

definition report_updateAdditionalPart :: "report_state \<Rightarrow> string \<Rightarrow> obj \<Rightarrow> clock \<Rightarrow> report_state" where
  "report_updateAdditionalPart s i d clk =
     s\<lparr>additionalParts :=
         map (\<lambda>p. if obj_get p ''id'' = FStr i then spread p d else p) (additionalParts s),
       lastLocalEdit := clk 0\<rparr>"

definition report_setAdditionalParts :: "report_state \<Rightarrow> additional_part list \<Rightarrow> clock \<Rightarrow> report_state" where
  "report_setAdditionalParts s parts clk = s\<lparr>additionalParts := parts, lastLocalEdit := clk 0\<rparr>"

definition report_setConclusion :: "report_state \<Rightarrow> string \<Rightarrow> clock \<Rightarrow> report_state" where
  "report_setConclusion s t clk = s\<lparr>conclusion := t, lastLocalEdit := clk 0\<rparr>"

definition report_setTranslation :: "report_state \<Rightarrow> translation_data option \<Rightarrow> report_state" where
  "report_setTranslation s t = s\<lparr>translation := t\<rparr>"

definition report_loadFromData :: "report_state \<Rightarrow> report_payload \<Rightarrow> report_state" where
  "report_loadFromData s d =
     s\<lparr>inspection :=
         (case p_inspection d of
            Some di \<Rightarrow> spread initialInspection di
          | None \<Rightarrow> initialInspection),
       photos := (case p_photos d of Some ps \<Rightarrow> ps | None \<Rightarrow> createInitialPhotos 4),
       conclusion := str_or (or_else (p_conclusion d) []) []\<rparr>"

text \<open>
  One round of the \<^verbatim>\<open>forEach\<close> over \<^verbatim>\<open>Object.keys(data.inspection)\<close> in the flat store's
  \<^verbatim>\<open>mergeFromData\<close>; the accumulator is \<^verbatim>\<open>newInspection\<close> with \<^verbatim>\<open>hasChanges\<close>.
\<close>

definition report_merge_field :: "obj \<Rightarrow> string \<Rightarrow> obj \<times> bool \<Rightarrow> obj \<times> bool" where
  "report_merge_field di k acc =
     (let serverValue = obj_get di k in
      if serverValue \<noteq> FNull \<and> serverValue \<noteq> FUndefined \<and> serverValue \<noteq> FStr [] then
        (if obj_get (fst acc) k \<noteq> serverValue then (obj_set (fst acc) k serverValue, True)
         else acc)
      else acc)"

definition applied_line :: string where
  "applied_line = ''[Merge Inspecao] Applied server changes''"

text \<open>
  The flat store's \<^verbatim>\<open>mergeFromData\<close>. The result is the state after \<^verbatim>\<open>set\<close> and the lines
  written to the console: the function returns nothing, \<^verbatim>\<open>hasChanges\<close> only decides
  whether the line is logged. \<open>serverTimestamp\<close> is the optional second parameter.
\<close>

definition report_mergeFromData ::
  "report_state \<Rightarrow> report_payload \<Rightarrow> int option \<Rightarrow> report_state \<times> string list" where
  "report_mergeFromData s d serverTimestamp =
     (let (newInspection, hasChanges1) =
            (case p_inspection d of
               Some di \<Rightarrow> fold (report_merge_field di) (obj_keys di) (inspection s, False)
             | None \<Rightarrow> (inspection s, False));
          (newPhotos, hasChanges2) =
            (case p_photos d of
               Some ps \<Rightarrow> (mergePhotos (photos s) ps, True)
             | None \<Rightarrow> (photos s, hasChanges1));
          (newConclusion, hasChanges3) =
            (case p_conclusion d of
               Some c \<Rightarrow>
                 (if c \<noteq> [] \<and> trim c \<noteq> [] then
                    (if conclusion s \<noteq> c then (c, True) else (conclusion s, hasChanges2))
                  else (conclusion s, hasChanges2))
             | None \<Rightarrow> (conclusion s, hasChanges2))
      in (s\<lparr>inspection := newInspection, photos := newPhotos, conclusion := newConclusion\<rparr>,
          if hasChanges3 then [applied_line] else []))"

text \<open>\<^verbatim>\<open>getAllData\<close>, as the payload a peer would receive.\<close>

definition report_getAllData :: "report_state \<Rightarrow> report_payload" where
  "report_getAllData s =
     \<lparr> p_inspection = Some (inspection s), p_photos = Some (photos s),
       p_conclusion = Some (conclusion s) \<rparr>"

definition report_clearAll :: "report_state \<Rightarrow> report_state" where
  "report_clearAll s =
     s\<lparr>inspection := initialInspection, photos := createInitialPhotos 4, photoCount := 4,
       additionalParts := [], conclusion := [], translation := None, lastLocalEdit := 0\<rparr>"

section \<open>The category-aware report store\<close>

text \<open>
  Modelled from the spec: the type \<^verbatim>\<open>PhotoCategory\<close> and the constant
  \<^verbatim>\<open>DEFAULT_CATEGORIES\<close> of \<^verbatim>\<open>@/types/report\<close>, which are not among the sources. A
  category has an identifier, the descriptive properties that \<^verbatim>\<open>DEFAULT_CATEGORIES\<close> gives
  it (carried along untouched), its photos and its additional parts.
  \<^verbatim>\<open>DEFAULT_CATEGORIES\<close> is a parameter: the list of identifiers with their descriptive
  properties.
\<close>

record category =
  cat_id :: string
  cat_info :: obj
  cat_photos :: "photo list"
  cat_additionalParts :: "additional_part list"

type_synonym default_categories = "(string \<times> obj) list"

definition createInitialCategoryPhotos :: "string \<Rightarrow> photo list" where
  "createInitialCategoryPhotos categoryId =
     map (\<lambda>i. blank_photo (''photo-'' @ categoryId @ ''-init-'' @ show_nat i)) [0 ..< 2]"

definition createInitialCategories :: "default_categories \<Rightarrow> category list" where
  "createInitialCategories defaults =
     map (\<lambda>cat. \<lparr> cat_id = fst cat, cat_info = snd cat,
                  cat_photos = createInitialCategoryPhotos (fst cat),
                  cat_additionalParts = [] \<rparr>) defaults"

definition mergeCategories :: "category list \<Rightarrow> category list \<Rightarrow> category list" where
  "mergeCategories localCats serverCats =
     (if length serverCats = 0 then localCats
      else if length localCats = 0 then serverCats
      else map (\<lambda>serverCat.
             case find (\<lambda>c. cat_id c = cat_id serverCat) localCats of
               None \<Rightarrow> serverCat
             | Some localCat \<Rightarrow>
                 serverCat\<lparr>cat_photos := mergePhotos (cat_photos localCat) (cat_photos serverCat),
                           cat_additionalParts :=
                             (if length (cat_additionalParts serverCat) \<noteq> 0
                              then cat_additionalParts serverCat
                              else cat_additionalParts localCat)\<rparr>) serverCats)"

record home_state =
  h_inspection :: obj
  categories :: "category list"
  h_conclusion :: string
  h_lastLocalEdit :: int

record home_payload =
  hp_inspection :: "obj option"
  hp_categories :: "category list option"
  hp_conclusion :: "string option"

definition home_initial :: "default_categories \<Rightarrow> home_state" where
  "home_initial defaults =
     \<lparr> h_inspection = initialInspection, categories = createInitialCategories defaults,
       h_conclusion = [], h_lastLocalEdit = 0 \<rparr>"

definition home_setLastLocalEdit :: "home_state \<Rightarrow> int \<Rightarrow> home_state" where
  "home_setLastLocalEdit s timestamp = s\<lparr>h_lastLocalEdit := timestamp\<rparr>"

definition home_updateInspection :: "home_state \<Rightarrow> obj \<Rightarrow> clock \<Rightarrow> home_state" where
  "home_updateInspection s d clk =
     s\<lparr>h_inspection := spread (h_inspection s) d, h_lastLocalEdit := clk 0\<rparr>"

definition home_setCategories :: "home_state \<Rightarrow> category list \<Rightarrow> clock \<Rightarrow> home_state" where
  "home_setCategories s cats clk = s\<lparr>categories := cats, h_lastLocalEdit := clk 0\<rparr>"

text \<open>
  The \<^verbatim>\<open>map\<close> of \<^verbatim>\<open>addPhotoToCategory\<close>: every category with the given identifier gets a
  blank photo whose identifier holds a reading of the clock; \<open>n\<close> counts the readings
  taken so far and is returned with the new list.
\<close>

fun addPhoto_cats :: "string \<Rightarrow> clock \<Rightarrow> nat \<Rightarrow> category list \<Rightarrow> category list \<times> nat" where
  "addPhoto_cats categoryId clk n [] = ([], n)"
| "addPhoto_cats categoryId clk n (cat # cats) =
     (if cat_id cat \<noteq> categoryId then
        (let rest = addPhoto_cats categoryId clk n cats in (cat # fst rest, snd rest))
      else
        (let rest = addPhoto_cats categoryId clk (Suc n) cats in
         (cat\<lparr>cat_photos := cat_photos cat @
                 [blank_photo (''photo-'' @ categoryId @ ''-'' @ show_int (clk n))]\<rparr>
            # fst rest, snd rest)))"

definition home_addPhotoToCategory :: "home_state \<Rightarrow> string \<Rightarrow> clock \<Rightarrow> home_state" where
  "home_addPhotoToCategory s categoryId clk =
     (let r = addPhoto_cats categoryId clk 0 (categories s) in
      s\<lparr>categories := fst r, h_lastLocalEdit := clk (snd r)\<rparr>)"

definition home_removePhotoFromCategory ::
  "home_state \<Rightarrow> string \<Rightarrow> string \<Rightarrow> clock \<Rightarrow> home_state" where
  "home_removePhotoFromCategory s categoryId photoId clk =
     s\<lparr>categories :=
         map (\<lambda>cat. if cat_id cat \<noteq> categoryId then cat
                    else cat\<lparr>cat_photos := filter (\<lambda>p. photo_id p \<noteq> photoId) (cat_photos cat)\<rparr>)
             (categories s),
       h_lastLocalEdit := clk 0\<rparr>"

definition home_updatePhotoInCategory ::
  "home_state \<Rightarrow> string \<Rightarrow> string \<Rightarrow> photo_patch \<Rightarrow> clock \<Rightarrow> home_state" where
  "home_updatePhotoInCategory s categoryId photoId d clk =
     s\<lparr>categories :=
         map (\<lambda>cat. if cat_id cat \<noteq> categoryId then cat
                    else cat\<lparr>cat_photos :=
                           map (\<lambda>p. if photo_id p = photoId then spread_photo p d else p)
                               (cat_photos cat)\<rparr>)
             (categories s),
       h_lastLocalEdit := clk 0\<rparr>"

definition home_addAdditionalPartToCategory ::
  "home_state \<Rightarrow> string \<Rightarrow> obj \<Rightarrow> clock \<Rightarrow> home_state" where
  "home_addAdditionalPartToCategory s categoryId part clk =
     s\<lparr>categories :=
         map (\<lambda>cat. if cat_id cat \<noteq> categoryId then cat
                    else cat\<lparr>cat_additionalParts := cat_additionalParts cat @ [part]\<rparr>)
             (categories s),
       h_lastLocalEdit := clk 0\<rparr>"

definition home_removeAdditionalPartFromCategory ::
  "home_state \<Rightarrow> string \<Rightarrow> string \<Rightarrow> clock \<Rightarrow> home_state" where
  "home_removeAdditionalPartFromCategory s categoryId partId clk =
     s\<lparr>categories :=
         map (\<lambda>cat. if cat_id cat \<noteq> categoryId then cat
                    else cat\<lparr>cat_additionalParts :=
                           filter (\<lambda>p. obj_get p ''id'' \<noteq> FStr partId) (cat_additionalParts cat)\<rparr>)
             (categories s),
       h_lastLocalEdit := clk 0\<rparr>"

definition home_setConclusion :: "home_state \<Rightarrow> string \<Rightarrow> clock \<Rightarrow> home_state" where
  "home_setConclusion s t clk = s\<lparr>h_conclusion := t, h_lastLocalEdit := clk 0\<rparr>"

definition home_loadFromData :: "default_categories \<Rightarrow> home_state \<Rightarrow> home_payload \<Rightarrow> home_state" where
  "home_loadFromData defaults s d =
     s\<lparr>h_inspection :=
         (case hp_inspection d of
            Some di \<Rightarrow> spread initialInspection di
          | None \<Rightarrow> initialInspection),
       categories :=
         (case hp_categories d of Some cs \<Rightarrow> cs | None \<Rightarrow> createInitialCategories defaults),
       h_conclusion := str_or (or_else (hp_conclusion d) []) []\<rparr>"

text \<open>\<^verbatim>\<open>serverTimestamp || Date.now()\<close>: an absent or zero timestamp is replaced by the
  clock.\<close>

definition serverTime_of :: "int option \<Rightarrow> clock \<Rightarrow> int" where
  "serverTime_of serverTimestamp clk =
     (case serverTimestamp of
        None \<Rightarrow> clk 0
      | Some t \<Rightarrow> if t \<noteq> 0 then t else clk 0)"

text \<open>
  One round of the \<^verbatim>\<open>forEach\<close> over \<^verbatim>\<open>Object.keys(data.inspection)\<close> in the
  category-aware store's \<^verbatim>\<open>mergeFromData\<close>. The local value is read from the state, the
  assignment goes to \<^verbatim>\<open>newInspection\<close>.
\<close>

definition home_merge_field :: "obj \<Rightarrow> obj \<Rightarrow> int \<Rightarrow> int \<Rightarrow> string \<Rightarrow> obj \<Rightarrow> obj" where
  "home_merge_field di stateInspection serverTime localEditTime k newInspection =
     (let serverValue = obj_get di k;
          localValue = obj_get stateInspection k in
      if truthy serverValue \<and> (\<not> truthy localValue \<or> localValue = FStr []) then
        obj_set newInspection k serverValue
      else if truthy serverValue \<and> serverTime > localEditTime then
        obj_set newInspection k serverValue
      else newInspection)"

definition skipping_line :: string where
  "skipping_line = ''[Merge] Local edit is newer, skipping merge''"

text \<open>
  The category-aware store's \<^verbatim>\<open>mergeFromData\<close>: the state after \<^verbatim>\<open>set\<close> and the lines
  written to the console.
\<close>

definition home_mergeFromData ::
  "home_state \<Rightarrow> home_payload \<Rightarrow> int option \<Rightarrow> clock \<Rightarrow> home_state \<times> string list" where
  "home_mergeFromData s d serverTimestamp clk =
     (let localEditTime = (if h_lastLocalEdit s \<noteq> 0 then h_lastLocalEdit s else 0);
          serverTime = serverTime_of serverTimestamp clk in
      if localEditTime > serverTime \<and> localEditTime > 0 then (s, [skipping_line])
      else
        (let newInspection =
               (case hp_inspection d of
                  Some di \<Rightarrow>
                    fold (home_merge_field di (h_inspection s) serverTime localEditTime)
                      (obj_keys di) (h_inspection s)
                | None \<Rightarrow> h_inspection s);
             newCategories =
               (case hp_categories d of
                  Some cs \<Rightarrow> mergeCategories (categories s) cs
                | None \<Rightarrow> categories s);
             newConclusion =
               (case hp_conclusion d of
                  Some c \<Rightarrow>
                    (if c \<noteq> [] \<and> (h_conclusion s = [] \<or> serverTime > localEditTime) then c
                     else h_conclusion s)
                | None \<Rightarrow> h_conclusion s)
         in (s\<lparr>h_inspection := newInspection, categories := newCategories,
                h_conclusion := newConclusion\<rparr>, [])))"

definition home_clearAll :: "default_categories \<Rightarrow> home_state \<Rightarrow> home_state" where
  "home_clearAll defaults s =
     s\<lparr>h_inspection := initialInspection, categories := createInitialCategories defaults,
       h_conclusion := [], h_lastLocalEdit := 0\<rparr>"

section \<open>The collaboration protocol handler\<close>

text \<open>JSON values carried by requests and sessions; \<^verbatim>\<open>undefined\<close> is the absence of a
  value (\<open>None\<close> of an optional one).\<close>

datatype json =
    JNull
  | JBool bool
  | JNum int
  | JStr string
  | JArr "json list"
  | JObj "(string \<times> json) list"

fun json_truthy :: "json \<Rightarrow> bool" where
  "json_truthy JNull = False"
| "json_truthy (JBool b) = b"
| "json_truthy (JNum n) = (n \<noteq> 0)"
| "json_truthy (JStr s) = (s \<noteq> [])"
| "json_truthy (JArr xs) = True"
| "json_truthy (JObj kvs) = True"

definition opt_truthy :: "json option \<Rightarrow> bool" where
  "opt_truthy d = (case d of None \<Rightarrow> False | Some j \<Rightarrow> json_truthy j)"

text \<open>\<^verbatim>\<open>n || d\<close> on an optional number.\<close>

definition num_or :: "int option \<Rightarrow> int \<Rightarrow> int" where
  "num_or n d = (case n of None \<Rightarrow> d | Some t \<Rightarrow> if t \<noteq> 0 then t else d)"

text \<open>
  The persisted session payload: the JSON text of the \<^verbatim>\<open>data\<close> column, represented by the
  object that \<^verbatim>\<open>JSON.parse\<close> gives. Every key may be missing; the empty column, read as
  \<^verbatim>\<open>'{}'\<close>, is the payload with no key.
\<close>

record session_user =
  user_id :: "string option"
  joinedAt :: int
  lastSeen :: int

record session_update =
  upd_userId :: "string option"
  upd_type :: string
  upd_data :: "json option"
  upd_field :: "string option"
  upd_value :: "json option"
  upd_timestamp :: int

type_synonym session_users = "(string \<times> session_user) list"

record session_data =
  sd_data :: "json option"
  sd_users :: "session_users option"
  sd_updates :: "session_update list option"
  sd_lastUpdated :: "int option"

text \<open>A row of the \<^verbatim>\<open>sharedSession\<close> table, and the table, keyed by \<^verbatim>\<open>sessionId\<close>.\<close>

record shared_session =
  row_sessionId :: string
  creatorId :: string
  creatorName :: string
  reportType :: string
  permission :: string
  row_data :: session_data
  expiresAt :: int

type_synonym db = "string \<rightharpoonup> shared_session"

text \<open>The request body. The actions that address a session name it by \<open>sessionId\<close>.\<close>

record request =
  action :: string
  sessionId :: string
  userId :: "string option"
  req_data :: "json option"
  req_type :: "string option"
  req_field :: "string option"
  req_value :: "json option"
  req_timestamp :: "int option"
  req_lastUpdate :: "int option"
  initialData :: "json option"

record env =
  NEXTAUTH_URL :: "string option"
  VERCEL_URL :: "string option"

text \<open>The response: its HTTP status and its JSON body, by action. \<open>Failed\<close> is the body
  \<^verbatim>\<open>{success: false, error}\<close>, every other body has \<^verbatim>\<open>success: true\<close>.\<close>

datatype body =
    Created string string
  | Joined string "json option" nat
  | Done
  | Polled "session_update list" nat int
  | Got "json option" nat string
  | Failed string

record response =
  status :: nat
  body :: body

definition success :: "response \<Rightarrow> bool" where
  "success r = (case body r of Failed e \<Rightarrow> False | _ \<Rightarrow> True)"

definition not_found :: response where
  "not_found = \<lparr> status = 404, body = Failed ''Session not found'' \<rparr>"

definition ok :: "body \<Rightarrow> response" where
  "ok b = \<lparr> status = 200, body = b \<rparr>"

definition chars :: string where
  "chars = ''ABCDEFGHIJKLMNOPQRSTUVWXYZabcdefghijklmnopqrstuvwxyz0123456789''"

text \<open>\<^verbatim>\<open>String.prototype.charAt\<close>: the empty string outside the string.\<close>

definition charAt :: "string \<Rightarrow> int \<Rightarrow> string" where
  "charAt s i = (if 0 \<le> i \<and> i < int (length s) then [s ! nat i] else [])"

text \<open>\<^verbatim>\<open>generateId\<close>; \<open>rnd i\<close> is the value of the \<open>i\<close>-th call of \<^verbatim>\<open>Math.random()\<close>, a
  real number (the product and its floor are taken exactly).\<close>

definition generateId :: "(nat \<Rightarrow> real) \<Rightarrow> nat \<Rightarrow> string" where
  "generateId rnd len =
     fold (\<lambda>i result. result @ charAt chars \<lfloor>rnd i * real (length chars)\<rfloor>) [0 ..< len] []"

text \<open>A source of random numbers for examples: every call of \<^verbatim>\<open>Math.random()\<close> gives
  \<open>x\<close>.\<close>

definition fixed_random :: "real \<Rightarrow> nat \<Rightarrow> real" where
  "fixed_random x i = x"

definition maxInactive :: int where
  "maxInactive = 5 * 60 * 1000"

text \<open>
  \<^verbatim>\<open>create\<close>. The table is addressed by \<^verbatim>\<open>findUnique({ where: { sessionId } })\<close>, so
  \<^verbatim>\<open>sessionId\<close> is its unique key: creating a row under an identifier that the table
  holds is rejected, and the rejection is caught by the handler's \<^verbatim>\<open>catch\<close>.
\<close>

definition handle_create :: "env \<Rightarrow> (nat \<Rightarrow> real) \<Rightarrow> clock \<Rightarrow> db \<Rightarrow> request \<Rightarrow> response \<times> db" where
  "handle_create e rnd clk d r =
     (let newSessionId = generateId rnd 8;
          host = null_or (NEXTAUTH_URL e) (VERCEL_URL e);
          baseUrl = (if null_truthy host then ''https://'' @ or_else host [] else []);
          shareLink = baseUrl @ ''/report/'' @ newSessionId;
          row = \<lparr> row_sessionId = newSessionId,
                  creatorId = str_or (or_else (userId r) []) ''collaboration'',
                  creatorName = ''Collaboration Session'',
                  reportType = ''collaboration'',
                  permission = ''edit'',
                  row_data = \<lparr> sd_data = Some (if opt_truthy (req_data r)
                                                  then or_else (req_data r) JNull else JNull),
                               sd_users = Some [],
                               sd_updates = Some [],
                               sd_lastUpdated = Some (clk 0) \<rparr>,
                  expiresAt = clk 1 + 24 * 60 * 60 * 1000 \<rparr>
      in case d newSessionId of
           Some existing \<Rightarrow> (\<lparr> status = 500, body = Failed ''Internal server error'' \<rparr>, d)
         | None \<Rightarrow> (ok (Created newSessionId shareLink), d(newSessionId \<mapsto> row)))"

definition handle_join :: "clock \<Rightarrow> db \<Rightarrow> request \<Rightarrow> response \<times> db" where
  "handle_join clk d r =
     (case d (sessionId r) of
        None \<Rightarrow> (not_found, d)
      | Some session \<Rightarrow>
          (let sessionData = row_data session;
               key = or_else (userId r) ''undefined'';
               users = AList.update key
                         \<lparr> user_id = userId r, joinedAt = clk 0, lastSeen = clk 1 \<rparr>
                         (or_else (sd_users sessionData) []);
               sessionData1 = sessionData\<lparr>sd_users := Some users\<rparr>;
               sessionData2 =
                 (if opt_truthy (initialData r)
                  then sessionData1\<lparr>sd_data := initialData r, sd_lastUpdated := Some (clk 2)\<rparr>
                  else sessionData1)
           in (ok (Joined (row_sessionId session) (sd_data sessionData2) (length users)),
               d(sessionId r \<mapsto> session\<lparr>row_data := sessionData2\<rparr>))))"

definition handle_leave :: "db \<Rightarrow> request \<Rightarrow> response \<times> db" where
  "handle_leave d r =
     (case d (sessionId r) of
        None \<Rightarrow> (ok Done, d)
      | Some session \<Rightarrow>
          (if null_truthy (userId r) then
             (let sessionData = row_data session;
                  key = or_else (userId r) [] in
              case sd_users sessionData of
                None \<Rightarrow> (ok Done, d)
              | Some users \<Rightarrow>
                  (case map_of users key of
                     None \<Rightarrow> (ok Done, d)
                   | Some u \<Rightarrow>
                       (ok Done,
                        d(sessionId r \<mapsto>
                            session\<lparr>row_data :=
                              sessionData\<lparr>sd_users := Some (AList.delete key users)\<rparr>\<rparr>))))
           else (ok Done, d)))"

text \<open>
  One round of the \<^verbatim>\<open>forEach\<close> over \<^verbatim>\<open>Object.keys(sessionData.users)\<close> in \<^verbatim>\<open>poll\<close>. The
  keys are those of the object itself, so the key is found unless an earlier round
  deleted it, which happens only in a list that binds a key twice (not an object).
\<close>

definition prune_user :: "int \<Rightarrow> string \<Rightarrow> session_users \<Rightarrow> session_users" where
  "prune_user now i users =
     (case map_of users i of
        None \<Rightarrow> users
      | Some u \<Rightarrow> if now - lastSeen u > maxInactive then AList.delete i users else users)"

text \<open>
  The first step of \<^verbatim>\<open>poll\<close>: the caller's \<^verbatim>\<open>lastSeen\<close> is set to the clock when the caller
  is named and is a participant. The result is the payload and the number of readings
  of the clock taken (\<open>1\<close> or \<open>0\<close>).
\<close>

definition poll_refresh :: "clock \<Rightarrow> request \<Rightarrow> session_data \<Rightarrow> session_data \<times> nat" where
  "poll_refresh clk r sessionData =
     (if null_truthy (userId r) then
        (case sd_users sessionData of
           None \<Rightarrow> (sessionData, 0)
         | Some users \<Rightarrow>
             (case map_of users (or_else (userId r) []) of
                None \<Rightarrow> (sessionData, 0)
              | Some u \<Rightarrow>
                  (sessionData\<lparr>sd_users :=
                      Some (AList.update (or_else (userId r) []) (u\<lparr>lastSeen := clk 0\<rparr>) users)\<rparr>,
                   1)))
      else (sessionData, 0))"

text \<open>The second step of \<^verbatim>\<open>poll\<close>: inactive participants and old updates are removed.\<close>

definition poll_prune :: "int \<Rightarrow> session_data \<Rightarrow> session_data" where
  "poll_prune now sessionData =
     sessionData\<lparr>
       sd_users :=
         (case sd_users sessionData of
            None \<Rightarrow> None
          | Some users \<Rightarrow> Some (fold (prune_user now) (map fst users) users)),
       sd_updates :=
         (case sd_updates sessionData of
            None \<Rightarrow> None
          | Some us \<Rightarrow> Some (filter (\<lambda>u. now - upd_timestamp u < maxInactive) us))\<rparr>"

definition handle_poll :: "clock \<Rightarrow> db \<Rightarrow> request \<Rightarrow> response \<times> db" where
  "handle_poll clk d r =
     (case d (sessionId r) of
        None \<Rightarrow> (not_found, d)
      | Some session \<Rightarrow>
          (let refreshed = poll_refresh clk r (row_data session);
               n = snd refreshed;
               now = clk n;
               sessionData = poll_prune now (fst refreshed);
               newUpdates =
                 filter (\<lambda>u. upd_timestamp u > num_or (req_lastUpdate r) 0)
                   (or_else (sd_updates sessionData) []);
               userCount = length (or_else (sd_users sessionData) [])
           in (ok (Polled newUpdates userCount (clk (Suc n))),
               d(sessionId r \<mapsto> session\<lparr>row_data := sessionData\<rparr>))))"

text \<open>
  The event that \<^verbatim>\<open>update\<close> appends. Its timestamp is the request's when that is given
  and not zero, else a reading of the clock; \<open>stamped\<close> says which.
\<close>

definition stamped :: "request \<Rightarrow> bool" where
  "stamped r = (case req_timestamp r of None \<Rightarrow> False | Some t \<Rightarrow> t \<noteq> 0)"

definition update_event :: "clock \<Rightarrow> request \<Rightarrow> session_update" where
  "update_event clk r =
     (let update = \<lparr> upd_userId = userId r,
                      upd_type = str_or (or_else (req_type r) []) ''full'',
                      upd_data = None, upd_field = None, upd_value = None,
                      upd_timestamp = num_or (req_timestamp r) (clk 0) \<rparr>
      in if req_type r = Some ''field''
         then update\<lparr>upd_field := req_field r, upd_value := req_value r\<rparr>
         else update\<lparr>upd_data := req_data r\<rparr>)"

definition handle_update :: "clock \<Rightarrow> db \<Rightarrow> request \<Rightarrow> response \<times> db" where
  "handle_update clk d r =
     (case d (sessionId r) of
        None \<Rightarrow> (not_found, d)
      | Some session \<Rightarrow>
          (let sessionData = row_data session;
               n = (if stamped r then 0 else 1);
               update = update_event clk r;
               sessionData1 =
                 (if req_type r = Some ''field'' then sessionData
                  else sessionData\<lparr>sd_data := req_data r\<rparr>);
               pushed = or_else (sd_updates sessionData1) [] @ [update];
               lastUpdated = clk n;
               now = clk (Suc n);
               sessionData2 =
                 sessionData1\<lparr>sd_updates :=
                                 Some (filter (\<lambda>u. now - upd_timestamp u < 5 * 60 * 1000) pushed),
                               sd_lastUpdated := Some lastUpdated\<rparr>
           in (ok Done, d(sessionId r \<mapsto> session\<lparr>row_data := sessionData2\<rparr>))))"

definition handle_get :: "db \<Rightarrow> request \<Rightarrow> response \<times> db" where
  "handle_get d r =
     (case d (sessionId r) of
        None \<Rightarrow> (not_found, d)
      | Some session \<Rightarrow>
          (let sessionData = row_data session;
               userCount = length (or_else (sd_users sessionData) [])
           in (ok (Got (sd_data sessionData) userCount (row_sessionId session)), d)))"

text \<open>\<^verbatim>\<open>delete\<close>: the rejection of deleting a missing row is swallowed by \<^verbatim>\<open>catch\<close>.\<close>

definition handle_delete :: "db \<Rightarrow> request \<Rightarrow> response \<times> db" where
  "handle_delete d r = (ok Done, d(sessionId r := None))"

text \<open>
  The \<^verbatim>\<open>POST\<close> handler of the collaboration route: the response and the table after the
  request. \<open>rnd\<close> and \<open>clk\<close> are the readings of \<^verbatim>\<open>Math.random()\<close> and \<^verbatim>\<open>Date.now()\<close>
  during the request.
\<close>

definition POST :: "env \<Rightarrow> (nat \<Rightarrow> real) \<Rightarrow> clock \<Rightarrow> db \<Rightarrow> request \<Rightarrow> response \<times> db" where
  "POST e rnd clk d r =
     (if action r = ''create'' then handle_create e rnd clk d r
      else if action r = ''join'' then handle_join clk d r
      else if action r = ''leave'' then handle_leave d r
      else if action r = ''poll'' then handle_poll clk d r
      else if action r = ''update'' then handle_update clk d r
      else if action r = ''get'' then handle_get d r
      else if action r = ''delete'' then handle_delete d r
      else (\<lparr> status = 400, body = Failed ''Invalid action'' \<rparr>, d))"

section \<open>Example data\<close>

text \<open>
  Data for the examples further down: an environment with no host configured; a request
  by \<open>ana\<close> on session \<open>AAAAAAAA\<close> with nothing but its action; the row that \<^verbatim>\<open>create\<close>
  stores for \<open>ana\<close> at clock \<open>1000\<close>, with a given roster and update log; a participant; a field
  event and a full event with a given timestamp.
\<close>

definition env0 :: env where
  "env0 = \<lparr> NEXTAUTH_URL = None, VERCEL_URL = None \<rparr>"

definition request0 :: "string \<Rightarrow> request" where
  "request0 a =
     \<lparr> action = a, sessionId = ''AAAAAAAA'', userId = Some ''ana'', req_data = None,
       req_type = None, req_field = None, req_value = None, req_timestamp = None,
       req_lastUpdate = None, initialData = None \<rparr>"

definition session0 :: "session_users \<Rightarrow> session_update list \<Rightarrow> shared_session" where
  "session0 users updates =
     \<lparr> row_sessionId = ''AAAAAAAA'', creatorId = ''ana'',
       creatorName = ''Collaboration Session'', reportType = ''collaboration'',
       permission = ''edit'',
       row_data = \<lparr> sd_data = Some JNull, sd_users = Some users, sd_updates = Some updates,
                    sd_lastUpdated = Some 1000 \<rparr>,
       expiresAt = 86401001 \<rparr>"

definition participant :: "string \<Rightarrow> int \<Rightarrow> string \<times> session_user" where
  "participant name seen = (name, \<lparr> user_id = Some name, joinedAt = 100, lastSeen = seen \<rparr>)"

definition tag_event :: "int \<Rightarrow> session_update" where
  "tag_event t =
     \<lparr> upd_userId = Some ''ana'', upd_type = ''field'', upd_data = None,
       upd_field = Some ''inspection.tag'', upd_value = Some (JStr ''T-1''),
       upd_timestamp = t \<rparr>"

definition done_event :: "int \<Rightarrow> session_update" where
  "done_event t =
     \<lparr> upd_userId = Some ''ana'', upd_type = ''full'',
       upd_data = Some (JObj [(''conclusion'', JStr ''done'')]), upd_field = None,
       upd_value = None, upd_timestamp = t \<rparr>"

section \<open>The photo-sequence merge is positional\<close>

lemma mergePhotos_step_in:
  "n < max (length l) (length s) \<Longrightarrow>
   mergePhotos_step l s n acc =
   acc @ [if n < length l then (if n < length s then merge_photo (l ! n) (s ! n) else l ! n)
          else s ! n]"
  by (auto simp: mergePhotos_step_def at_index_def)

lemma mergePhotos_fold:
  "n \<le> max (length l) (length s) \<Longrightarrow>
   fold (mergePhotos_step l s) [0 ..< n] [] =
   map (\<lambda>i. if i < length l then (if i < length s then merge_photo (l ! i) (s ! i) else l ! i)
             else s ! i) [0 ..< n]"
proof (induction n)
  case 0
  then show ?case by simp
next
  case (Suc n)
  then have n: "n < max (length l) (length s)" by simp
  from Suc have IH: "fold (mergePhotos_step l s) [0 ..< n] [] =
    map (\<lambda>i. if i < length l then (if i < length s then merge_photo (l ! i) (s ! i) else l ! i)
             else s ! i) [0 ..< n]" by simp
  show ?case
    by (simp only: upt_Suc_append [OF le0] fold_append comp_apply fold_simps IH
          mergePhotos_step_in [OF n] map_append list.map)
qed

lemma mergePhotos_map:
  "mergePhotos l s =
   map (\<lambda>i. if i < length l then (if i < length s then merge_photo (l ! i) (s ! i) else l ! i)
             else s ! i) [0 ..< max (length l) (length s)]"
proof (cases "s = []")
  case True
  then show ?thesis by (auto simp: mergePhotos_def intro: nth_equalityI)
next
  case s: False
  show ?thesis
  proof (cases "l = []")
    case True
    then show ?thesis using s by (auto simp: mergePhotos_def intro: nth_equalityI)
  next
    case False
    then show ?thesis using s by (simp add: mergePhotos_def mergePhotos_fold)
  qed
qed

lemma mergePhotos_length: "length (mergePhotos l s) = max (length l) (length s)"
  by (simp add: mergePhotos_map)

lemma mergePhotos_nth:
  "i < max (length l) (length s) \<Longrightarrow>
   mergePhotos l s ! i =
     (if i < length l then (if i < length s then merge_photo (l ! i) (s ! i) else l ! i)
      else s ! i)"
  by (simp add: mergePhotos_map)

lemma merge_photo_self: "merge_photo p p = p"
  by (simp add: merge_photo_def str_or_def null_or_def)

lemma mergePhotos_self: "mergePhotos l l = l"
  by (rule nth_equalityI) (simp_all add: mergePhotos_length mergePhotos_nth merge_photo_self)

text \<open>
  Claim C5. The photo-sequence merge is positional: the result has the length of the
  longer side; at an index that only one side has, it holds that side's entry unchanged;
  at an index that both sides have, it holds the field-wise merge, in which each field is
  the incoming one when that is non-empty and the local one otherwise, and the flag is
  the disjunction of both flags. Merging local \<open>[a, b]\<close> with incoming \<open>[x]\<close> gives the
  merge of \<open>a\<close> and \<open>x\<close>, then \<open>b\<close>.
\<close>

theorem mergePhotos_positional:
  "length (mergePhotos l s) = max (length l) (length s) \<and>
   (i < max (length l) (length s) \<longrightarrow>
      mergePhotos l s ! i =
        (if i < length l then (if i < length s then merge_photo (l ! i) (s ! i) else l ! i)
         else s ! i)) \<and>
   photo_id (merge_photo a x) = (if photo_id x \<noteq> [] then photo_id x else photo_id a) \<and>
   description (merge_photo a x) = (if description x \<noteq> [] then description x else description a) \<and>
   pn (merge_photo a x) = (if pn x \<noteq> [] then pn x else pn a) \<and>
   serialNumber (merge_photo a x) = (if serialNumber x \<noteq> [] then serialNumber x else serialNumber a) \<and>
   partName (merge_photo a x) = (if partName x \<noteq> [] then partName x else partName a) \<and>
   quantity (merge_photo a x) = (if quantity x \<noteq> [] then quantity x else quantity a) \<and>
   criticality (merge_photo a x) = (if criticality x \<noteq> [] then criticality x else criticality a) \<and>
   imageData (merge_photo a x) = (if null_truthy (imageData x) then imageData x else imageData a) \<and>
   editedImageData (merge_photo a x) =
     (if null_truthy (editedImageData x) then editedImageData x else editedImageData a) \<and>
   embeddedPhotos (merge_photo a x) =
     (if embeddedPhotos x \<noteq> [] then embeddedPhotos x else embeddedPhotos a) \<and>
   hasAdditionalParts (merge_photo a x) = (hasAdditionalParts x \<or> hasAdditionalParts a) \<and>
   mergePhotos [a, b] [x] = [merge_photo a x, b]"
proof -
  have fields: "photo_id (merge_photo a x) = (if photo_id x \<noteq> [] then photo_id x else photo_id a) \<and>
   description (merge_photo a x) = (if description x \<noteq> [] then description x else description a) \<and>
   pn (merge_photo a x) = (if pn x \<noteq> [] then pn x else pn a) \<and>
   serialNumber (merge_photo a x) = (if serialNumber x \<noteq> [] then serialNumber x else serialNumber a) \<and>
   partName (merge_photo a x) = (if partName x \<noteq> [] then partName x else partName a) \<and>
   quantity (merge_photo a x) = (if quantity x \<noteq> [] then quantity x else quantity a) \<and>
   criticality (merge_photo a x) = (if criticality x \<noteq> [] then criticality x else criticality a) \<and>
   imageData (merge_photo a x) = (if null_truthy (imageData x) then imageData x else imageData a) \<and>
   editedImageData (merge_photo a x) =
     (if null_truthy (editedImageData x) then editedImageData x else editedImageData a) \<and>
   embeddedPhotos (merge_photo a x) =
     (if embeddedPhotos x \<noteq> [] then embeddedPhotos x else embeddedPhotos a) \<and>
   hasAdditionalParts (merge_photo a x) = (hasAdditionalParts x \<or> hasAdditionalParts a)"
    by (simp add: merge_photo_def str_or_def null_or_def)
  have two: "mergePhotos [a, b] [x] = [merge_photo a x, b]"
    by (simp add: mergePhotos_map upt_rec)
  show ?thesis
    using fields two mergePhotos_length [of l s] mergePhotos_nth [of i l s] by blast
qed


theorem mergePhotos_positional_witness:
  "(1::nat) < max (length [blank_photo ''a'', blank_photo ''b'']) (length [blank_photo ''x'']) \<and>
   mergePhotos [blank_photo ''a'', blank_photo ''b''] [blank_photo ''x''] ! 1 = blank_photo ''b'' \<and>
   (0::nat) < max (length [blank_photo ''a'', blank_photo ''b'']) (length [blank_photo ''x'']) \<and>
   mergePhotos [blank_photo ''a'', blank_photo ''b''] [blank_photo ''x''] ! 0 = blank_photo ''x''"
  using mergePhotos_positional [of "[blank_photo ''a'', blank_photo ''b'']" "[blank_photo ''x'']" 1]
    mergePhotos_positional [of "[blank_photo ''a'', blank_photo ''b'']" "[blank_photo ''x'']" 0]
  by (simp add: merge_photo_def blank_photo_def str_or_def null_or_def null_truthy_def)

section \<open>Inspection fields under the two merges\<close>

lemma truthy_iff: "truthy v \<longleftrightarrow> v \<noteq> FNull \<and> v \<noteq> FUndefined \<and> v \<noteq> FStr []"
  by (cases v) simp_all

lemma obj_get_set: "obj_get (obj_set ob k v) k' = (if k' = k then v else obj_get ob k')"
  by (simp add: obj_get_def obj_set_def update_conv')

lemma report_merge_field_get:
  "obj_get (fst (report_merge_field di a acc)) k =
     (if a = k \<and> truthy (obj_get di k) then obj_get di k else obj_get (fst acc) k)"
  by (auto simp: report_merge_field_def Let_def obj_get_set truthy_iff)

lemma report_fold_get:
  "obj_get (fst (fold (report_merge_field di) ks acc)) k =
     (if k \<in> set ks \<and> truthy (obj_get di k) then obj_get di k else obj_get (fst acc) k)"
proof (induction ks arbitrary: acc)
  case Nil
  then show ?case by simp
next
  case (Cons a ks)
  show ?case
    by (auto simp: Cons.IH report_merge_field_get)
qed

lemma report_fold_same:
  "\<forall>k \<in> set ks. obj_get (fst acc) k = obj_get di k \<Longrightarrow>
   fold (report_merge_field di) ks acc = acc"
proof (induction ks arbitrary: acc)
  case Nil
  then show ?case by simp
next
  case (Cons a ks)
  then have "report_merge_field di a acc = acc"
    by (simp add: report_merge_field_def Let_def)
  with Cons show ?case by simp
qed

lemma home_merge_field_get:
  "obj_get (home_merge_field di loc st lt a ins) k =
     (if a = k \<and> truthy (obj_get di k) \<and> (\<not> truthy (obj_get loc k) \<or> st > lt)
      then obj_get di k else obj_get ins k)"
  by (auto simp: home_merge_field_def Let_def obj_get_set)

lemma home_fold_get:
  "obj_get (fold (home_merge_field di loc st lt) ks ins) k =
     (if k \<in> set ks \<and> truthy (obj_get di k) \<and> (\<not> truthy (obj_get loc k) \<or> st > lt)
      then obj_get di k else obj_get ins k)"
proof (induction ks arbitrary: ins)
  case Nil
  then show ?case by simp
next
  case (Cons a ks)
  show ?case
    by (auto simp: Cons.IH home_merge_field_get)
qed

lemma truthy_key: "truthy (obj_get di k) \<Longrightarrow> k \<in> set (obj_keys di)"
  by (auto simp: obj_get_def obj_keys_def split: option.splits dest!: map_of_SomeD intro: image_eqI [where x = "(k, v)" for v])

lemma report_merge_inspection:
  "inspection (fst (report_mergeFromData s d ts)) =
     (case p_inspection d of
        Some di \<Rightarrow> fst (fold (report_merge_field di) (obj_keys di) (inspection s, False))
      | None \<Rightarrow> inspection s)"
  by (auto simp: report_mergeFromData_def Let_def split: prod.splits option.splits)

lemma home_merge_inspection:
  "\<not> (h_lastLocalEdit s > serverTime_of ts clk \<and> h_lastLocalEdit s > 0) \<Longrightarrow>
   h_inspection (fst (home_mergeFromData s d ts clk)) =
     (case hp_inspection d of
        Some di \<Rightarrow> fold (home_merge_field di (h_inspection s) (serverTime_of ts clk) (h_lastLocalEdit s))
                     (obj_keys di) (h_inspection s)
      | None \<Rightarrow> h_inspection s)"
  by (auto simp: home_mergeFromData_def Let_def split: option.splits)

lemma home_merge_skip:
  "h_lastLocalEdit s > serverTime_of ts clk \<Longrightarrow> h_lastLocalEdit s > 0 \<Longrightarrow>
   home_mergeFromData s d ts clk = (s, [skipping_line])"
  by (simp add: home_mergeFromData_def Let_def)

lemma report_fold_flag:
  "snd (fold (report_merge_field di) ks acc) =
     (snd acc \<or> (\<exists>k \<in> set ks. truthy (obj_get di k) \<and> obj_get (fst acc) k \<noteq> obj_get di k))"
proof (induction ks arbitrary: acc)
  case Nil
  then show ?case by simp
next
  case (Cons a ks)
  show ?case
  proof (cases "truthy (obj_get di a) \<and> obj_get (fst acc) a \<noteq> obj_get di a")
    case True
    then have "report_merge_field di a acc = (obj_set (fst acc) a (obj_get di a), True)"
      by (simp add: report_merge_field_def Let_def truthy_iff)
    with True show ?thesis by (simp add: Cons.IH)
  next
    case False
    then have "report_merge_field di a acc = acc"
      by (auto simp: report_merge_field_def Let_def truthy_iff)
    with False show ?thesis by (auto simp: Cons.IH)
  qed
qed

lemma report_fold_changed:
  "snd (fold (report_merge_field di) ks (ins, False)) =
     (fst (fold (report_merge_field di) ks (ins, False)) \<noteq> ins)"
proof (cases "\<exists>k \<in> set ks. truthy (obj_get di k) \<and> obj_get ins k \<noteq> obj_get di k")
  case True
  then obtain k where k: "k \<in> set ks" "truthy (obj_get di k)" "obj_get ins k \<noteq> obj_get di k"
    by blast
  then have "obj_get (fst (fold (report_merge_field di) ks (ins, False))) k \<noteq> obj_get ins k"
    by (simp add: report_fold_get)
  then have "fst (fold (report_merge_field di) ks (ins, False)) \<noteq> ins" by auto
  with True show ?thesis by (simp add: report_fold_flag)
next
  case False
  have "fold (report_merge_field di) ks acc = acc"
    if "\<not> (\<exists>k \<in> set ks. truthy (obj_get di k) \<and> obj_get (fst acc) k \<noteq> obj_get di k)"
    for acc
    using that
  proof (induction ks arbitrary: acc)
    case Nil
    then show ?case by simp
  next
    case (Cons a ks)
    then have "report_merge_field di a acc = acc"
      by (auto simp: report_merge_field_def Let_def truthy_iff)
    with Cons show ?case by simp
  qed
  from this [of "(ins, False)"] False show ?thesis by simp
qed

lemma report_merge_signal:
  "snd (report_mergeFromData s d ts) =
     (if inspection (fst (report_mergeFromData s d ts)) \<noteq> inspection s \<or>
         p_photos d \<noteq> None \<or>
         conclusion (fst (report_mergeFromData s d ts)) \<noteq> conclusion s
      then [applied_line] else [])"
proof -
  obtain ni h1 where f: "(case p_inspection d of
               Some di \<Rightarrow> fold (report_merge_field di) (obj_keys di) (inspection s, False)
             | None \<Rightarrow> (inspection s, False)) = (ni, h1)"
    by (cases "case p_inspection d of
               Some di \<Rightarrow> fold (report_merge_field di) (obj_keys di) (inspection s, False)
             | None \<Rightarrow> (inspection s, False)") auto
  have h1: "h1 = (ni \<noteq> inspection s)"
  proof (cases "p_inspection d")
    case None
    with f show ?thesis by auto
  next
    case (Some di)
    with f have "fold (report_merge_field di) (obj_keys di) (inspection s, False) = (ni, h1)"
      by simp
    with report_fold_changed [of di "obj_keys di" "inspection s"] show ?thesis by simp
  qed
  show ?thesis
    using f h1
    by (auto simp: report_mergeFromData_def Let_def split: option.splits)
qed

lemma report_merge_self:
  "report_mergeFromData s (report_getAllData s) ts = (s, [applied_line])"
proof -
  have "fold (report_merge_field (inspection s)) (obj_keys (inspection s)) (inspection s, False)
        = (inspection s, False)"
    by (rule report_fold_same) simp
  then show ?thesis
    by (simp add: report_mergeFromData_def report_getAllData_def mergePhotos_self)
qed

lemma report_merge_self_no_photos:
  "report_mergeFromData s ((report_getAllData s)\<lparr>p_photos := None\<rparr>) ts = (s, [])"
proof -
  have "fold (report_merge_field (inspection s)) (obj_keys (inspection s)) (inspection s, False)
        = (inspection s, False)"
    by (rule report_fold_same) simp
  then show ?thesis
    by (simp add: report_mergeFromData_def report_getAllData_def)
qed

lemma report_merge_field_value:
  "obj_get (inspection (fst (report_mergeFromData s d ts))) k =
     (if truthy (obj_get (or_else (p_inspection d) []) k)
      then obj_get (or_else (p_inspection d) []) k else obj_get (inspection s) k)"
proof (cases "p_inspection d")
  case None
  then show ?thesis
    by (simp add: report_merge_inspection or_else_def obj_get_def)
next
  case (Some di)
  then show ?thesis
    using truthy_key [of di k]
    by (auto simp: report_merge_inspection or_else_def report_fold_get)
qed

lemma home_merge_field_value:
  assumes "\<not> (h_lastLocalEdit h > serverTime_of ts clk \<and> h_lastLocalEdit h > 0)"
  shows "obj_get (h_inspection (fst (home_mergeFromData h e ts clk))) k =
     (if truthy (obj_get (or_else (hp_inspection e) []) k) \<and>
         (\<not> truthy (obj_get (h_inspection h) k) \<or> serverTime_of ts clk > h_lastLocalEdit h)
      then obj_get (or_else (hp_inspection e) []) k else obj_get (h_inspection h) k)"
proof (cases "hp_inspection e")
  case None
  then show ?thesis
    using assms by (simp add: home_merge_inspection or_else_def obj_get_def)
next
  case (Some di)
  then show ?thesis
    using truthy_key [of di k] assms
    by (auto simp: home_merge_inspection or_else_def home_fold_get)
qed

lemma addPhoto_cats_readings:
  "snd (addPhoto_cats c clk n cats) = n + length (filter (\<lambda>cat. cat_id cat = c) cats)"
  by (induction cats arbitrary: n) (simp_all add: Let_def)

lemma report_merge_keeps_edit_time:
  "lastLocalEdit (fst (report_mergeFromData s d ts)) = lastLocalEdit s"
  by (simp add: report_mergeFromData_def Let_def split: prod.splits)

lemma home_merge_keeps_edit_time:
  "h_lastLocalEdit (fst (home_mergeFromData h e ts clk)) = h_lastLocalEdit h"
  by (simp add: home_mergeFromData_def Let_def)

lemma report_clearAll_initial: "report_clearAll s = report_initial"
  by (simp add: report_clearAll_def report_initial_def)

lemma home_clearAll_initial: "home_clearAll defaults h = home_initial defaults"
  by (simp add: home_clearAll_def home_initial_def)


section \<open>Timestamp-authoritative merge\<close>

text \<open>
  Claim C1, amended. The merge of the category-aware store leaves the local state as it
  is whenever \<open>lastLocalEdit\<close> is greater than the server time and greater than \<open>0\<close>,
  where the server time is the timestamp passed when that is not zero, and the reading
  of the clock when the timestamp is zero or not passed.
\<close>

theorem home_merge_authority:
  "h_lastLocalEdit s > serverTime_of serverTimestamp clk \<Longrightarrow> h_lastLocalEdit s > 0 \<Longrightarrow>
   fst (home_mergeFromData s d serverTimestamp clk) = s"
  by (simp add: home_merge_skip)

theorem home_merge_authority_witness:
  "h_lastLocalEdit (home_initial []\<lparr>h_lastLocalEdit := 100\<rparr>) > serverTime_of (Some 50) (ticking 200) \<and>
   h_lastLocalEdit (home_initial []\<lparr>h_lastLocalEdit := 100\<rparr>) > 0 \<and>
   fst (home_mergeFromData (home_initial []\<lparr>h_lastLocalEdit := 100\<rparr>)
          \<lparr> hp_inspection = Some [(''tag'', FStr ''T-1'')], hp_categories = None,
            hp_conclusion = Some ''done'' \<rparr> (Some 50) (ticking 200))
     = home_initial []\<lparr>h_lastLocalEdit := 100\<rparr>"
  using home_merge_authority [of "Some 50" "ticking 200" "home_initial []\<lparr>h_lastLocalEdit := 100\<rparr>"
      "\<lparr> hp_inspection = Some [(''tag'', FStr ''T-1'')], hp_categories = None,
            hp_conclusion = Some ''done'' \<rparr>"]
  by (simp add: serverTime_of_def)

text \<open>
  The claim as it is written fails when the timestamp passed is \<open>0\<close>: with
  \<open>lastLocalEdit = 100\<close> both conditions hold (\<open>100 > 0\<close>), but the merge compares with
  the clock's reading \<open>200\<close> and takes the incoming \<^verbatim>\<open>tag\<close>.
\<close>

theorem home_merge_authority_counterexample:
  "h_lastLocalEdit (home_initial []\<lparr>h_lastLocalEdit := 100\<rparr>) > 0 \<and>
   fst (home_mergeFromData (home_initial []\<lparr>h_lastLocalEdit := 100\<rparr>)
          \<lparr> hp_inspection = Some [(''tag'', FStr ''T-1'')], hp_categories = None,
            hp_conclusion = None \<rparr> (Some 0) (ticking 200))
     \<noteq> home_initial []\<lparr>h_lastLocalEdit := 100\<rparr>"
proof -
  have "obj_get (h_inspection (fst (home_mergeFromData (home_initial []\<lparr>h_lastLocalEdit := 100\<rparr>)
          \<lparr> hp_inspection = Some [(''tag'', FStr ''T-1'')], hp_categories = None,
            hp_conclusion = None \<rparr> (Some 0) (ticking 200)))) ''tag'' = FStr ''T-1''"
    by (simp add: home_mergeFromData_def serverTime_of_def home_initial_def obj_keys_def
        home_merge_field_def obj_get_def obj_set_def initialInspection_def Let_def ticking_def)
  moreover have "obj_get (h_inspection (home_initial []\<lparr>h_lastLocalEdit := 100\<rparr>)) ''tag'' = FStr []"
    by (simp add: home_initial_def obj_get_def initialInspection_def)
  ultimately show ?thesis
    by (auto simp: home_initial_def)
qed

section \<open>Unconditional field-priority merge\<close>

text \<open>
  Claim C2, amended. The flat store's merge returns nothing; its signal is the line it
  logs, and the line is logged exactly when the inspection or the conclusion came out
  different or the payload carries a photo list. Merging a state with its own data
  changes no field but logs the line, because the payload carries the photo list; the
  same payload without the photo list changes no field and logs nothing.
\<close>

theorem report_merge_identical_payload:
  "snd (report_mergeFromData s d ts) =
     (if inspection (fst (report_mergeFromData s d ts)) \<noteq> inspection s \<or>
         p_photos d \<noteq> None \<or>
         conclusion (fst (report_mergeFromData s d ts)) \<noteq> conclusion s
      then [applied_line] else []) \<and>
   report_mergeFromData s (report_getAllData s) ts = (s, [applied_line]) \<and>
   report_mergeFromData s ((report_getAllData s)\<lparr>p_photos := None\<rparr>) ts = (s, [])"
  using report_merge_signal [of s d ts] report_merge_self [of s ts]
    report_merge_self_no_photos [of s ts]
  by blast

theorem report_merge_identical_payload_witness:
  "snd (report_mergeFromData report_initial (report_getAllData report_initial) None) = [applied_line] \<and>
   fst (report_mergeFromData report_initial (report_getAllData report_initial) None) = report_initial \<and>
   report_mergeFromData report_initial ((report_getAllData report_initial)\<lparr>p_photos := None\<rparr>) None
     = (report_initial, [])"
  using report_merge_identical_payload [of report_initial "report_getAllData report_initial" None]
  by simp

text \<open>
  The claim as it is written fails at the initial state: its own data as the payload
  leaves every field as it was, and the line is logged all the same.
\<close>

theorem report_merge_identical_payload_counterexample:
  "fst (report_mergeFromData report_initial (report_getAllData report_initial) None) = report_initial \<and>
   snd (report_mergeFromData report_initial (report_getAllData report_initial) None) \<noteq> []"
  by (simp add: report_merge_self)

text \<open>
  Claim C10. The flat store's merge never reads its \<open>serverTimestamp\<close> parameter: two
  calls that differ only there give the same state and the same console output.
\<close>

theorem report_merge_ignores_timestamp:
  "report_mergeFromData s d t1 = report_mergeFromData s d t2"
  by (simp add: report_mergeFromData_def)

section \<open>Field priority\<close>

text \<open>
  Claim C6, amended. For every inspection field: in the flat store the merged value is
  non-empty when the local or the incoming value is, and an empty or absent incoming
  value leaves the local value as it is. In the category-aware store the same holds
  whenever the merge is not skipped (the local edit is not newer than the server time);
  in every case a non-empty local value stays non-empty, and an empty or absent incoming
  value leaves the local value as it is.
\<close>

theorem merge_field_priority:
  "(truthy (obj_get (inspection s) k) \<or> truthy (obj_get (or_else (p_inspection d) []) k) \<longrightarrow>
      truthy (obj_get (inspection (fst (report_mergeFromData s d ts))) k)) \<and>
   (\<not> truthy (obj_get (or_else (p_inspection d) []) k) \<longrightarrow>
      obj_get (inspection (fst (report_mergeFromData s d ts))) k = obj_get (inspection s) k) \<and>
   (\<not> (h_lastLocalEdit h > serverTime_of ts clk \<and> h_lastLocalEdit h > 0) \<and>
    (truthy (obj_get (h_inspection h) k) \<or> truthy (obj_get (or_else (hp_inspection e) []) k)) \<longrightarrow>
      truthy (obj_get (h_inspection (fst (home_mergeFromData h e ts clk))) k)) \<and>
   (truthy (obj_get (h_inspection h) k) \<longrightarrow>
      truthy (obj_get (h_inspection (fst (home_mergeFromData h e ts clk))) k)) \<and>
   (\<not> truthy (obj_get (or_else (hp_inspection e) []) k) \<longrightarrow>
      obj_get (h_inspection (fst (home_mergeFromData h e ts clk))) k = obj_get (h_inspection h) k)"
proof -
  have flat: "obj_get (inspection (fst (report_mergeFromData s d ts))) k =
     (if truthy (obj_get (or_else (p_inspection d) []) k)
      then obj_get (or_else (p_inspection d) []) k else obj_get (inspection s) k)"
    by (rule report_merge_field_value)
  have home: "obj_get (h_inspection (fst (home_mergeFromData h e ts clk))) k =
     (if truthy (obj_get (or_else (hp_inspection e) []) k) \<and>
         (\<not> truthy (obj_get (h_inspection h) k) \<or> serverTime_of ts clk > h_lastLocalEdit h)
      then obj_get (or_else (hp_inspection e) []) k else obj_get (h_inspection h) k)"
    if "\<not> (h_lastLocalEdit h > serverTime_of ts clk \<and> h_lastLocalEdit h > 0)"
    using that by (rule home_merge_field_value)
  have skip: "fst (home_mergeFromData h e ts clk) = h"
    if "h_lastLocalEdit h > serverTime_of ts clk \<and> h_lastLocalEdit h > 0"
    using that by (simp add: home_merge_skip)
  show ?thesis
  proof (cases "h_lastLocalEdit h > serverTime_of ts clk \<and> h_lastLocalEdit h > 0")
    case True
    then show ?thesis using flat skip by simp
  next
    case False
    then show ?thesis using flat home [OF False] by auto
  qed
qed

theorem merge_field_priority_witness:
  "truthy (obj_get (inspection (report_initial\<lparr>inspection := [(''tag'', FStr ''L'')]\<rparr>)) ''tag'') \<and>
   \<not> truthy (obj_get (or_else (p_inspection
        \<lparr> p_inspection = Some [(''tag'', FStr []), (''sn'', FStr ''S'')], p_photos = None,
          p_conclusion = None \<rparr>) []) ''tag'') \<and>
   obj_get (inspection (fst (report_mergeFromData (report_initial\<lparr>inspection := [(''tag'', FStr ''L'')]\<rparr>)
        \<lparr> p_inspection = Some [(''tag'', FStr []), (''sn'', FStr ''S'')], p_photos = None,
          p_conclusion = None \<rparr> (Some 50)))) ''tag'' = FStr ''L'' \<and>
   \<not> (h_lastLocalEdit (home_initial []\<lparr>h_inspection := [(''tag'', FStr ''L'')]\<rparr>)
          > serverTime_of (Some 50) (ticking 200) \<and>
      h_lastLocalEdit (home_initial []\<lparr>h_inspection := [(''tag'', FStr ''L'')]\<rparr>) > 0) \<and>
   obj_get (h_inspection (fst (home_mergeFromData (home_initial []\<lparr>h_inspection := [(''tag'', FStr ''L'')]\<rparr>)
        \<lparr> hp_inspection = Some [(''tag'', FStr []), (''sn'', FStr ''S'')], hp_categories = None,
          hp_conclusion = None \<rparr> (Some 50) (ticking 200)))) ''tag'' = FStr ''L''"
  using merge_field_priority [where s = "report_initial\<lparr>inspection := [(''tag'', FStr ''L'')]\<rparr>"
      and k = "''tag''"
      and d = "\<lparr> p_inspection = Some [(''tag'', FStr []), (''sn'', FStr ''S'')], p_photos = None,
          p_conclusion = None \<rparr>"
      and ts = "Some 50"
      and h = "home_initial []\<lparr>h_inspection := [(''tag'', FStr ''L'')]\<rparr>"
      and clk = "ticking 200"
      and e = "\<lparr> hp_inspection = Some [(''tag'', FStr []), (''sn'', FStr ''S'')], hp_categories = None,
          hp_conclusion = None \<rparr>"]
  by (simp add: obj_get_def or_else_def home_initial_def serverTime_of_def)

text \<open>
  The claim as it is written fails in the category-aware store when the local edit is
  newer than the server: the local \<^verbatim>\<open>tag\<close> is empty, the incoming one is not, and the
  merge is skipped, so the field stays empty.
\<close>

theorem merge_field_priority_counterexample:
  "truthy (obj_get (or_else (hp_inspection
        \<lparr> hp_inspection = Some [(''tag'', FStr ''T-1'')], hp_categories = None,
          hp_conclusion = None \<rparr>) []) ''tag'') \<and>
   \<not> truthy (obj_get (h_inspection (fst (home_mergeFromData (home_initial []\<lparr>h_lastLocalEdit := 100\<rparr>)
        \<lparr> hp_inspection = Some [(''tag'', FStr ''T-1'')], hp_categories = None,
          hp_conclusion = None \<rparr> (Some 50) (ticking 200)))) ''tag'')"
  by (simp add: home_merge_skip serverTime_of_def home_initial_def or_else_def obj_get_def
      initialInspection_def)

section \<open>Local edit tracker\<close>

text \<open>
  Claim C9. Every mutating operation of both stores stamps \<open>lastLocalEdit\<close> with a
  reading of the clock taken during the operation (the last one, when the operation also
  reads the clock for a new photo's identifier); \<^verbatim>\<open>loadFromData\<close> and \<^verbatim>\<open>mergeFromData\<close>
  leave \<open>lastLocalEdit\<close> as it was; \<^verbatim>\<open>clearAll\<close> gives the initial state, whose
  \<open>lastLocalEdit\<close> is \<open>0\<close>.
\<close>

theorem local_edit_tracker:
  "lastLocalEdit (report_updateInspection s ob clk) = clk 0 \<and>
   lastLocalEdit (report_setPhotos s ps clk) = clk 0 \<and>
   lastLocalEdit (report_addPhoto s clk) = clk 1 \<and>
   lastLocalEdit (report_removePhoto s i clk) = clk 0 \<and>
   lastLocalEdit (report_updatePhoto s i pd clk) = clk 0 \<and>
   lastLocalEdit (report_setPhotoCount s n clk) = clk 0 \<and>
   lastLocalEdit (report_addAdditionalPart s part clk) = clk 0 \<and>
   lastLocalEdit (report_removeAdditionalPart s i clk) = clk 0 \<and>
   lastLocalEdit (report_updateAdditionalPart s i ob clk) = clk 0 \<and>
   lastLocalEdit (report_setAdditionalParts s parts clk) = clk 0 \<and>
   lastLocalEdit (report_setConclusion s t clk) = clk 0 \<and>
   lastLocalEdit (report_loadFromData s d) = lastLocalEdit s \<and>
   lastLocalEdit (fst (report_mergeFromData s d ts)) = lastLocalEdit s \<and>
   report_clearAll s = report_initial \<and>
   lastLocalEdit (report_clearAll s) = 0 \<and>
   h_lastLocalEdit (home_updateInspection h ob clk) = clk 0 \<and>
   h_lastLocalEdit (home_setCategories h cats clk) = clk 0 \<and>
   h_lastLocalEdit (home_addPhotoToCategory h c clk) =
     clk (length (filter (\<lambda>cat. cat_id cat = c) (categories h))) \<and>
   h_lastLocalEdit (home_removePhotoFromCategory h c i clk) = clk 0 \<and>
   h_lastLocalEdit (home_updatePhotoInCategory h c i pd clk) = clk 0 \<and>
   h_lastLocalEdit (home_addAdditionalPartToCategory h c part clk) = clk 0 \<and>
   h_lastLocalEdit (home_removeAdditionalPartFromCategory h c i clk) = clk 0 \<and>
   h_lastLocalEdit (home_setConclusion h t clk) = clk 0 \<and>
   h_lastLocalEdit (home_loadFromData defaults h e) = h_lastLocalEdit h \<and>
   h_lastLocalEdit (fst (home_mergeFromData h e ts clk)) = h_lastLocalEdit h \<and>
   home_clearAll defaults h = home_initial defaults \<and>
   h_lastLocalEdit (home_clearAll defaults h) = 0"
proof -
  have flat_ops:
    "lastLocalEdit (report_updateInspection s ob clk) = clk 0"
    "lastLocalEdit (report_setPhotos s ps clk) = clk 0"
    "lastLocalEdit (report_addPhoto s clk) = clk 1"
    "lastLocalEdit (report_removePhoto s i clk) = clk 0"
    "lastLocalEdit (report_updatePhoto s i pd clk) = clk 0"
    "lastLocalEdit (report_setPhotoCount s n clk) = clk 0"
    "lastLocalEdit (report_addAdditionalPart s part clk) = clk 0"
    "lastLocalEdit (report_removeAdditionalPart s i clk) = clk 0"
    "lastLocalEdit (report_updateAdditionalPart s i ob clk) = clk 0"
    "lastLocalEdit (report_setAdditionalParts s parts clk) = clk 0"
    "lastLocalEdit (report_setConclusion s t clk) = clk 0"
    by (simp_all add: report_updateInspection_def report_setPhotos_def report_addPhoto_def
        report_removePhoto_def report_updatePhoto_def report_setPhotoCount_def
        report_addAdditionalPart_def report_removeAdditionalPart_def
        report_updateAdditionalPart_def report_setAdditionalParts_def report_setConclusion_def
        Let_def)
  have flat_server:
    "lastLocalEdit (report_loadFromData s d) = lastLocalEdit s"
    "lastLocalEdit (fst (report_mergeFromData s d ts)) = lastLocalEdit s"
    by (simp_all add: report_loadFromData_def report_merge_keeps_edit_time)
  have flat_clear:
    "report_clearAll s = report_initial"
    "lastLocalEdit (report_clearAll s) = 0"
    by (simp_all add: report_clearAll_initial) (simp add: report_initial_def)
  have home_ops:
    "h_lastLocalEdit (home_updateInspection h ob clk) = clk 0"
    "h_lastLocalEdit (home_setCategories h cats clk) = clk 0"
    "h_lastLocalEdit (home_removePhotoFromCategory h c i clk) = clk 0"
    "h_lastLocalEdit (home_updatePhotoInCategory h c i pd clk) = clk 0"
    "h_lastLocalEdit (home_addAdditionalPartToCategory h c part clk) = clk 0"
    "h_lastLocalEdit (home_removeAdditionalPartFromCategory h c i clk) = clk 0"
    "h_lastLocalEdit (home_setConclusion h t clk) = clk 0"
    by (simp_all add: home_updateInspection_def home_setCategories_def
        home_removePhotoFromCategory_def home_updatePhotoInCategory_def
        home_addAdditionalPartToCategory_def home_removeAdditionalPartFromCategory_def
        home_setConclusion_def)
  have home_add:
    "h_lastLocalEdit (home_addPhotoToCategory h c clk) =
       clk (length (filter (\<lambda>cat. cat_id cat = c) (categories h)))"
    by (simp add: home_addPhotoToCategory_def Let_def addPhoto_cats_readings)
  have home_server:
    "h_lastLocalEdit (home_loadFromData defaults h e) = h_lastLocalEdit h"
    "h_lastLocalEdit (fst (home_mergeFromData h e ts clk)) = h_lastLocalEdit h"
    by (simp_all add: home_loadFromData_def home_merge_keeps_edit_time)
  have home_clear:
    "home_clearAll defaults h = home_initial defaults"
    "h_lastLocalEdit (home_clearAll defaults h) = 0"
    by (simp_all add: home_clearAll_initial) (simp add: home_initial_def)
  show ?thesis
    using flat_ops flat_server flat_clear home_ops home_add home_server home_clear
    by blast
qed

theorem local_edit_tracker_witness:
  "lastLocalEdit (report_setConclusion report_initial ''done'' (ticking 1000)) = 1000 \<and>
   lastLocalEdit (report_addPhoto report_initial (ticking 1000)) = 1001 \<and>
   lastLocalEdit (fst (report_mergeFromData (report_setConclusion report_initial ''done'' (ticking 1000))
       (report_getAllData report_initial) (Some 2000))) = 1000 \<and>
   h_lastLocalEdit (home_addPhotoToCategory (home_initial [(''motor'', [])]) ''motor'' (ticking 1000))
     = 1001"
  using local_edit_tracker [where s = report_initial and t = "''done''" and clk = "ticking 1000"
      and h = "home_initial [(''motor'', [])]" and c = "''motor''"]
    local_edit_tracker [where s = "report_setConclusion report_initial ''done'' (ticking 1000)"
      and d = "report_getAllData report_initial" and ts = "Some 2000"]
  by (simp add: ticking_def home_initial_def createInitialCategories_def)

section \<open>Facts about the protocol handler\<close>

lemmas protocol_defs =
  POST_def handle_create_def handle_join_def handle_leave_def handle_poll_def handle_update_def
  handle_get_def handle_delete_def poll_refresh_def poll_prune_def prune_user_def
  update_event_def stamped_def num_or_def or_else_def str_or_def null_truthy_def null_or_def
  opt_truthy_def ok_def not_found_def ticking_def maxInactive_def Let_def

lemmas example_defs =
  env0_def request0_def session0_def participant_def tag_event_def done_event_def

lemma success_ok: "success (ok b) = (case b of Failed e \<Rightarrow> False | _ \<Rightarrow> True)"
  by (simp add: success_def ok_def)

lemma leave_ok: "fst (handle_leave d r) = ok Done"
  by (simp add: handle_leave_def Let_def split: option.splits)

lemma fold_snoc_concat:
  "fold (\<lambda>i result. result @ g i) [0 ..< n] acc = acc @ concat (map g [0 ..< n])"
  by (induction n) simp_all

lemma generateId_concat:
  "generateId rnd n = concat (map (\<lambda>i. charAt chars \<lfloor>rnd i * real (length chars)\<rfloor>) [0 ..< n])"
  by (simp add: generateId_def fold_snoc_concat)

lemma charAt_in:
  "0 \<le> x \<Longrightarrow> x < 1 \<Longrightarrow>
   \<exists>c. c \<in> set chars \<and> charAt chars \<lfloor>x * real (length chars)\<rfloor> = [c]"
proof -
  assume x: "0 \<le> x" "x < 1"
  have len: "0 < length chars" by (simp add: chars_def)
  have lo: "0 \<le> \<lfloor>x * real (length chars)\<rfloor>" using x by simp
  have "x * real (length chars) < real (length chars)" using x len by simp
  then have hi: "\<lfloor>x * real (length chars)\<rfloor> < int (length chars)"
    by (simp add: floor_less_iff)
  from lo hi have "nat \<lfloor>x * real (length chars)\<rfloor> < length chars" by linarith
  then have "chars ! nat \<lfloor>x * real (length chars)\<rfloor> \<in> set chars" by (rule nth_mem)
  with lo hi show ?thesis by (auto simp: charAt_def)
qed

lemma generateId_shape:
  "(\<And>i. i < n \<Longrightarrow> 0 \<le> rnd i \<and> rnd i < 1) \<Longrightarrow>
   length (generateId rnd n) = n \<and> set (generateId rnd n) \<subseteq> set chars"
proof (induction n)
  case 0
  then show ?case by (simp add: generateId_concat)
next
  case (Suc n)
  then have IH: "length (generateId rnd n) = n \<and> set (generateId rnd n) \<subseteq> set chars" by simp
  from Suc.prems [of n] obtain c where
    c: "c \<in> set chars" "charAt chars \<lfloor>rnd n * real (length chars)\<rfloor> = [c]"
    using charAt_in by blast
  have "generateId rnd (Suc n) = generateId rnd n @ [c]"
    using c by (simp add: generateId_concat)
  with IH c show ?case by simp
qed

lemma chars_alphanumeric:
  "c \<in> set chars \<Longrightarrow>
   (48 \<le> (of_char c :: nat) \<and> (of_char c :: nat) \<le> 57) \<or>
   (65 \<le> (of_char c :: nat) \<and> (of_char c :: nat) \<le> 90) \<or>
   (97 \<le> (of_char c :: nat) \<and> (of_char c :: nat) \<le> 122)"
  by (auto simp: chars_def)
lemma generateId_fixed0: "generateId (fixed_random 0) 8 = ''AAAAAAAA''"
  by (simp add: generateId_concat fixed_random_def charAt_def chars_def upt_rec)

lemma prune_user_filter:
  assumes "distinct (map fst users)"
  shows "prune_user now k users =
         filter (\<lambda>p. \<not> (fst p = k \<and> now - lastSeen (snd p) > maxInactive)) users"
proof (cases "map_of users k")
  case None
  then have "\<forall>p \<in> set users. fst p \<noteq> k"
    by (auto simp: map_of_eq_None_iff)
  then have "filter (\<lambda>p. \<not> (fst p = k \<and> now - lastSeen (snd p) > maxInactive)) users = users"
    by (auto simp: filter_id_conv)
  with None show ?thesis by (simp add: prune_user_def)
next
  case (Some u)
  have same: "snd p = u" if "p \<in> set users" "fst p = k" for p
  proof -
    from that have "(k, snd p) \<in> set users" by (metis prod.collapse)
    with assms have "map_of users k = Some (snd p)" by (rule map_of_is_SomeI)
    with Some show ?thesis by simp
  qed
  show ?thesis
  proof (cases "now - lastSeen u > maxInactive")
    case True
    have "AList.delete k users =
          filter (\<lambda>p. \<not> (fst p = k \<and> now - lastSeen (snd p) > maxInactive)) users"
      unfolding AList.delete_eq
      by (rule filter_cong) (use True same in auto)
    with Some True show ?thesis
      by (simp add: prune_user_def)
  next
    case False
    have "filter (\<lambda>p. \<not> (fst p = k \<and> now - lastSeen (snd p) > maxInactive)) users = users"
      unfolding filter_id_conv using False same by auto
    with Some False show ?thesis by (simp add: prune_user_def)
  qed
qed

lemma prune_fold_filter:
  "distinct (map fst users) \<Longrightarrow>
   fold (prune_user now) ks users =
   filter (\<lambda>p. \<not> (fst p \<in> set ks \<and> now - lastSeen (snd p) > maxInactive)) users"
proof (induction ks arbitrary: users)
  case Nil
  then show ?case by simp
next
  case (Cons k ks)
  let ?users1 = "filter (\<lambda>p. \<not> (fst p = k \<and> now - lastSeen (snd p) > maxInactive)) users"
  have step: "prune_user now k users = ?users1"
    using Cons.prems by (rule prune_user_filter)
  have "distinct (map fst ?users1)"
    using Cons.prems by (rule distinct_map_filter)
  then have "fold (prune_user now) ks ?users1 =
    filter (\<lambda>p. \<not> (fst p \<in> set ks \<and> now - lastSeen (snd p) > maxInactive)) ?users1"
    by (rule Cons.IH)
  then show ?case
    by (auto simp: step intro: filter_cong)
qed

lemma poll_prune_users:
  "distinct (map fst (or_else (sd_users sd) [])) \<Longrightarrow>
   sd_users (poll_prune now sd) =
     map_option (filter (\<lambda>p. \<not> (now - lastSeen (snd p) > maxInactive))) (sd_users sd)"
  by (cases "sd_users sd")
     (auto simp: poll_prune_def or_else_def prune_fold_filter intro: filter_cong)

lemma poll_refresh_distinct:
  "distinct (map fst (or_else (sd_users sd) [])) \<Longrightarrow>
   distinct (map fst (or_else (sd_users (fst (poll_refresh clk r sd))) []))"
  by (auto simp: poll_refresh_def or_else_def distinct_update split: option.splits)

lemma poll_refresh_updates: "sd_updates (fst (poll_refresh clk r sd)) = sd_updates sd"
  by (auto simp: poll_refresh_def split: option.splits)
lemma handle_poll_found:
  "d (sessionId r) = Some session \<Longrightarrow>
   handle_poll clk d r =
     (ok (Polled
            (filter (\<lambda>u. upd_timestamp u > num_or (req_lastUpdate r) 0)
               (or_else (sd_updates (poll_prune (clk (snd (poll_refresh clk r (row_data session))))
                                       (fst (poll_refresh clk r (row_data session))))) []))
            (length (or_else (sd_users (poll_prune (clk (snd (poll_refresh clk r (row_data session))))
                                       (fst (poll_refresh clk r (row_data session))))) []))
            (clk (Suc (snd (poll_refresh clk r (row_data session)))))),
      d(sessionId r \<mapsto>
          session\<lparr>row_data := poll_prune (clk (snd (poll_refresh clk r (row_data session))))
                                  (fst (poll_refresh clk r (row_data session)))\<rparr>))"
  by (simp add: handle_poll_def Let_def)

lemma poll_prune_updates:
  "sd_updates (poll_prune now sd) =
     map_option (filter (\<lambda>u. now - upd_timestamp u < maxInactive)) (sd_updates sd)"
  by (cases "sd_updates sd") (simp_all add: poll_prune_def)

lemma handle_update_found:
  "d (sessionId r) = Some session \<Longrightarrow>
   handle_update clk d r =
     (ok Done,
      d(sessionId r \<mapsto>
          session\<lparr>row_data :=
            (if req_type r = Some ''field'' then row_data session
             else (row_data session)\<lparr>sd_data := req_data r\<rparr>)
            \<lparr>sd_updates :=
               Some (filter (\<lambda>u. clk (Suc (if stamped r then 0 else 1)) - upd_timestamp u < maxInactive)
                       (or_else (sd_updates (row_data session)) [] @ [update_event clk r])),
             sd_lastUpdated := Some (clk (if stamped r then 0 else 1))\<rparr>\<rparr>))"
  by (simp add: handle_update_def Let_def maxInactive_def)

lemma poll_refresh_readings:
  "snd (poll_refresh clk r sd) = 0 \<or> snd (poll_refresh clk r sd) = 1"
  by (simp add: poll_refresh_def split: option.splits)

lemma poll_updates_subset:
  "set (or_else (sd_updates (poll_prune now (fst (poll_refresh clk r sd)))) []) \<subseteq>
   set (or_else (sd_updates sd) [])"
  by (cases "sd_updates sd") (auto simp: poll_prune_updates poll_refresh_updates or_else_def)

lemma handle_get_found:
  "d (sessionId g) = Some session \<Longrightarrow>
   handle_get d g =
     (ok (Got (sd_data (row_data session)) (length (or_else (sd_users (row_data session)) []))
            (row_sessionId session)), d)"
  by (simp add: handle_get_def Let_def)


section \<open>Sessions that are absent\<close>

text \<open>
  Claim C8. When no session is stored under the request's \<open>sessionId\<close>, the actions
  \<^verbatim>\<open>join\<close>, \<^verbatim>\<open>poll\<close>, \<^verbatim>\<open>update\<close> and \<^verbatim>\<open>get\<close> answer with a failure body and status 404,
  and leave the table as it was. The actions \<^verbatim>\<open>leave\<close> and \<^verbatim>\<open>delete\<close> answer with success
  and status 200 whatever the table holds, so also when the session, or for \<^verbatim>\<open>leave\<close> the
  participant, is absent.
\<close>

theorem absent_session_contract:
  "(d (sessionId r) = None \<and>
    (action r = ''join'' \<or> action r = ''poll'' \<or> action r = ''update'' \<or> action r = ''get'') \<longrightarrow>
      \<not> success (fst (POST e rnd clk d r)) \<and> status (fst (POST e rnd clk d r)) = 404 \<and>
      snd (POST e rnd clk d r) = d) \<and>
   (action r = ''leave'' \<or> action r = ''delete'' \<longrightarrow>
      success (fst (POST e rnd clk d r)) \<and> status (fst (POST e rnd clk d r)) = 200)"
proof -
  have absent: "\<not> success (fst (POST e rnd clk d r)) \<and> status (fst (POST e rnd clk d r)) = 404 \<and>
      snd (POST e rnd clk d r) = d"
    if "d (sessionId r) = None"
      and "action r = ''join'' \<or> action r = ''poll'' \<or> action r = ''update'' \<or> action r = ''get''"
    using that
    by (auto simp: POST_def handle_join_def handle_poll_def handle_update_def handle_get_def
        not_found_def success_def)
  have gone: "success (fst (POST e rnd clk d r)) \<and> status (fst (POST e rnd clk d r)) = 200"
    if "action r = ''leave'' \<or> action r = ''delete''"
    using that
    by (auto simp: POST_def leave_ok handle_delete_def success_ok) (simp_all add: ok_def)
  show ?thesis using absent gone by blast
qed

theorem absent_session_contract_witness:
  "Map.empty (sessionId (request0 ''join'')) = (None :: shared_session option) \<and>
   fst (POST env0 (fixed_random 0) (ticking 1000) Map.empty (request0 ''join''))
     = \<lparr> status = 404, body = Failed ''Session not found'' \<rparr> \<and>
   fst (POST env0 (fixed_random 0) (ticking 1000) Map.empty (request0 ''delete''))
     = \<lparr> status = 200, body = Done \<rparr> \<and>
   fst (POST env0 (fixed_random 0) (ticking 1000) [''AAAAAAAA'' \<mapsto> session0 [] []]
          (request0 ''leave''))
     = \<lparr> status = 200, body = Done \<rparr>"
  using absent_session_contract [where d = Map.empty and r = "request0 ''join''" and e = env0
      and rnd = "fixed_random 0" and clk = "ticking 1000"]
    absent_session_contract [where d = Map.empty and r = "request0 ''delete''" and e = env0
      and rnd = "fixed_random 0" and clk = "ticking 1000"]
    absent_session_contract [where d = "[''AAAAAAAA'' \<mapsto> session0 [] []]"
      and r = "request0 ''leave''" and e = env0 and rnd = "fixed_random 0"
      and clk = "ticking 1000"]
  by (simp add: protocol_defs example_defs)

section \<open>Creating a session\<close>

text \<open>
  Claim C7, amended. For a \<^verbatim>\<open>create\<close> request, when every \<^verbatim>\<open>Math.random()\<close> lies in
  \<open>[0, 1)\<close> and the minted identifier is not yet in the table: the identifier has exactly
  8 characters, each a digit or a letter; the session is stored with no participants, an
  empty update log, \<^verbatim>\<open>lastUpdated\<close> the clock, and \<^verbatim>\<open>data\<close> the request's \<^verbatim>\<open>data\<close> when that
  is given and truthy, \<^verbatim>\<open>null\<close> otherwise; a \<^verbatim>\<open>get\<close> on the new identifier right after
  returns that \<^verbatim>\<open>data\<close>, so \<^verbatim>\<open>null\<close> when the request carried none.
\<close>

theorem create_then_get:
  assumes "action r = ''create''"
    and "\<forall>i<8. 0 \<le> rnd i \<and> rnd i < 1"
    and "d (generateId rnd 8) = None"
    and "action g = ''get''"
    and "sessionId g = generateId rnd 8"
  shows "length (generateId rnd 8) = 8 \<and>
    (\<forall>c \<in> set (generateId rnd 8).
       (48 \<le> (of_char c :: nat) \<and> (of_char c :: nat) \<le> 57) \<or>
       (65 \<le> (of_char c :: nat) \<and> (of_char c :: nat) \<le> 90) \<or>
       (97 \<le> (of_char c :: nat) \<and> (of_char c :: nat) \<le> 122)) \<and>
    (\<exists>link. fst (POST e rnd clk d r) = ok (Created (generateId rnd 8) link)) \<and>
    map_option row_data (snd (POST e rnd clk d r) (generateId rnd 8)) =
      Some \<lparr> sd_data = Some (if opt_truthy (req_data r) then or_else (req_data r) JNull else JNull),
             sd_users = Some [], sd_updates = Some [], sd_lastUpdated = Some (clk 0) \<rparr> \<and>
    fst (POST e' rnd' clk' (snd (POST e rnd clk d r)) g) =
      ok (Got (Some (if opt_truthy (req_data r) then or_else (req_data r) JNull else JNull)) 0
            (generateId rnd 8)) \<and>
    (\<not> opt_truthy (req_data r) \<longrightarrow>
       fst (POST e' rnd' clk' (snd (POST e rnd clk d r)) g) =
         ok (Got (Some JNull) 0 (generateId rnd 8)))"
proof -
  have shape: "length (generateId rnd 8) = 8 \<and> set (generateId rnd 8) \<subseteq> set chars"
    using assms(2) by (intro generateId_shape) simp
  then have alnum: "\<forall>c \<in> set (generateId rnd 8).
       (48 \<le> (of_char c :: nat) \<and> (of_char c :: nat) \<le> 57) \<or>
       (65 \<le> (of_char c :: nat) \<and> (of_char c :: nat) \<le> 90) \<or>
       (97 \<le> (of_char c :: nat) \<and> (of_char c :: nat) \<le> 122)"
    using chars_alphanumeric by blast
  have created: "\<exists>link. fst (POST e rnd clk d r) = ok (Created (generateId rnd 8) link)"
    using assms(1,3) by (auto simp: POST_def handle_create_def Let_def)
  have stored: "map_option row_data (snd (POST e rnd clk d r) (generateId rnd 8)) =
      Some \<lparr> sd_data = Some (if opt_truthy (req_data r) then or_else (req_data r) JNull else JNull),
             sd_users = Some [], sd_updates = Some [], sd_lastUpdated = Some (clk 0) \<rparr>"
    using assms(1,3) by (simp add: POST_def handle_create_def Let_def)
  have got: "fst (POST e' rnd' clk' (snd (POST e rnd clk d r)) g) =
      ok (Got (Some (if opt_truthy (req_data r) then or_else (req_data r) JNull else JNull)) 0
            (generateId rnd 8))"
    using assms(1,3,4,5)
    by (simp add: POST_def handle_create_def handle_get_def Let_def or_else_def)
  show ?thesis using shape alnum created stored got by simp
qed

theorem create_then_get_witness:
  "Map.empty (generateId (fixed_random 0) 8) = (None :: shared_session option) \<and>
   generateId (fixed_random 0) 8 = ''AAAAAAAA'' \<and>
   snd (POST env0 (fixed_random 0) (ticking 1000) Map.empty (request0 ''create''))
     = [''AAAAAAAA'' \<mapsto> session0 [] []] \<and>
   fst (POST env0 (fixed_random 0) (ticking 2000)
          (snd (POST env0 (fixed_random 0) (ticking 1000) Map.empty (request0 ''create'')))
          (request0 ''get''))
     = ok (Got (Some JNull) 0 ''AAAAAAAA'')"
proof -
  have rnd: "\<forall>i<8. 0 \<le> fixed_random 0 i \<and> fixed_random 0 i < 1"
    by (simp add: fixed_random_def)
  have free: "Map.empty (generateId (fixed_random 0) 8) = (None :: shared_session option)"
    by simp
  have acts: "action (request0 ''create'') = ''create''" "action (request0 ''get'') = ''get''"
    by (simp_all add: request0_def)
  have same: "sessionId (request0 ''get'') = generateId (fixed_random 0) 8"
    by (simp add: request0_def generateId_fixed0)
  note created = create_then_get [where d = Map.empty and e = env0 and clk = "ticking 1000"
      and e' = env0 and rnd' = "fixed_random 0" and clk' = "ticking 2000",
      OF acts(1) rnd free acts(2) same]
  have stored: "snd (POST env0 (fixed_random 0) (ticking 1000) Map.empty (request0 ''create''))
     = [''AAAAAAAA'' \<mapsto> session0 [] []]"
    by (simp add: generateId_fixed0 protocol_defs example_defs)
  show ?thesis
    using created stored
    by (simp add: generateId_fixed0 request0_def opt_truthy_def)
qed

text \<open>
  The claim as it is written fails for a \<^verbatim>\<open>create\<close> request that carries \<^verbatim>\<open>data\<close>: the
  session is seeded with it and \<^verbatim>\<open>get\<close> returns it, not \<^verbatim>\<open>null\<close>.
\<close>

theorem create_then_get_counterexample:
  "fst (POST env0 (fixed_random 0) (ticking 2000)
          (snd (POST env0 (fixed_random 0) (ticking 1000) Map.empty
                  ((request0 ''create'')
                     \<lparr>req_data := Some (JObj [(''conclusion'', JStr ''X'')])\<rparr>)))
          (request0 ''get''))
     = ok (Got (Some (JObj [(''conclusion'', JStr ''X'')])) 0 ''AAAAAAAA'')"
  by (simp add: generateId_fixed0 protocol_defs example_defs)

section \<open>Field events and full events\<close>

text \<open>
  Claim C3, amended. For an \<^verbatim>\<open>update\<close> request on a stored session: with type
  \<^verbatim>\<open>field\<close> the event carries the field and the value and a \<^verbatim>\<open>get\<close> afterwards answers
  as it did before; with any other type (\<^verbatim>\<open>full\<close>) the event carries the payload and a
  \<^verbatim>\<open>get\<close> afterwards returns that payload. The stored log is the old log without the
  entries that are 5 minutes old or older at the time of the update, followed by the
  event when its timestamp is less than 5 minutes before that time; an event whose
  timestamp is older is trimmed at once: it is not in the stored log, and no \<^verbatim>\<open>poll\<close>
  afterwards has it among its updates. An event that was kept is among the updates of a
  later \<^verbatim>\<open>poll\<close> provided its timestamp is also less than 5 minutes before the time of
  the poll and greater than the poll's \<^verbatim>\<open>lastUpdate\<close> cursor.
\<close>

theorem update_field_vs_full:
  assumes "d (sessionId r) = Some session"
    and "action r = ''update''"
    and "action g = ''get''" and "sessionId g = sessionId r"
    and "action p = ''poll''" and "sessionId p = sessionId r"
    and "POST e rnd clk d r = (resp, d')"
    and "ev = update_event clk r"
    and "now = clk (Suc (if stamped r then 0 else 1))"
  shows "resp = ok Done \<and>
    (req_type r = Some ''field'' \<longrightarrow>
       fst (POST e1 rnd1 clk1 d' g) = fst (POST e1 rnd1 clk1 d g) \<and>
       upd_type ev = ''field'' \<and> upd_field ev = req_field r \<and> upd_value ev = req_value r) \<and>
    (req_type r \<noteq> Some ''field'' \<longrightarrow>
       fst (POST e1 rnd1 clk1 d' g) =
         ok (Got (req_data r) (length (or_else (sd_users (row_data session)) []))
               (row_sessionId session)) \<and>
       upd_data ev = req_data r) \<and>
    (now - upd_timestamp ev < maxInactive \<longrightarrow>
       (\<exists>stored. d' (sessionId r) = Some stored \<and>
          sd_updates (row_data stored) =
            Some (filter (\<lambda>u. now - upd_timestamp u < maxInactive)
                    (or_else (sd_updates (row_data session)) []) @ [ev]))) \<and>
    (now - upd_timestamp ev < maxInactive \<and>
     clk2 0 - upd_timestamp ev < maxInactive \<and> clk2 1 - upd_timestamp ev < maxInactive \<and>
     upd_timestamp ev > num_or (req_lastUpdate p) 0 \<longrightarrow>
       (\<exists>us c t. fst (POST e2 rnd2 clk2 d' p) = ok (Polled us c t) \<and> ev \<in> set us)) \<and>
    (\<exists>stored. d' (sessionId r) = Some stored \<and>
       sd_updates (row_data stored) =
         Some (filter (\<lambda>u. now - upd_timestamp u < maxInactive)
                 (or_else (sd_updates (row_data session)) []) @
               (if now - upd_timestamp ev < maxInactive then [ev] else []))) \<and>
    (\<not> now - upd_timestamp ev < maxInactive \<longrightarrow>
       (\<exists>stored. d' (sessionId r) = Some stored \<and>
          sd_updates (row_data stored) =
            Some (filter (\<lambda>u. now - upd_timestamp u < maxInactive)
                    (or_else (sd_updates (row_data session)) [])) \<and>
          ev \<notin> set (or_else (sd_updates (row_data stored)) [])) \<and>
       (\<exists>us c t. fst (POST e2 rnd2 clk2 d' p) = ok (Polled us c t) \<and> ev \<notin> set us))"
proof -
  let ?sd = "(if req_type r = Some ''field'' then row_data session
             else (row_data session)\<lparr>sd_data := req_data r\<rparr>)
            \<lparr>sd_updates :=
               Some (filter (\<lambda>u. now - upd_timestamp u < maxInactive)
                       (or_else (sd_updates (row_data session)) [] @ [ev])),
             sd_lastUpdated := Some (clk (if stamped r then 0 else 1))\<rparr>"
  let ?stored = "session\<lparr>row_data := ?sd\<rparr>"
  have "POST e rnd clk d r = handle_update clk d r"
    using assms(2) by (simp add: POST_def)
  with assms(7) have run: "handle_update clk d r = (resp, d')" by simp
  have resp: "resp = ok Done" and d': "d' = d(sessionId r \<mapsto> ?stored)"
    using run unfolding handle_update_found [where d = d and r = r and session = session, OF assms(1)]
      assms(8,9) by simp_all
  have at_g: "d' (sessionId g) = Some ?stored" and at_p: "d' (sessionId p) = Some ?stored"
    using d' assms(4,6) by simp_all
  have get_after: "fst (POST e1 rnd1 clk1 d' g) =
      ok (Got (sd_data ?sd) (length (or_else (sd_users ?sd) [])) (row_sessionId session))"
    using assms(3)
    by (simp add: POST_def handle_get_found [where d = d' and g = g and session = ?stored, OF at_g])
  have get_before: "fst (POST e1 rnd1 clk1 d g) =
      ok (Got (sd_data (row_data session)) (length (or_else (sd_users (row_data session)) []))
            (row_sessionId session))"
    using assms(1,3,4)
    by (simp add: POST_def handle_get_found [where d = d and g = g and session = session])
  have field: "fst (POST e1 rnd1 clk1 d' g) = fst (POST e1 rnd1 clk1 d g) \<and>
       upd_type ev = ''field'' \<and> upd_field ev = req_field r \<and> upd_value ev = req_value r"
    if "req_type r = Some ''field''"
    using that unfolding get_after get_before assms(8)
    by (simp add: update_event_def Let_def str_or_def or_else_def)
  have full: "fst (POST e1 rnd1 clk1 d' g) =
         ok (Got (req_data r) (length (or_else (sd_users (row_data session)) []))
               (row_sessionId session)) \<and> upd_data ev = req_data r"
    if "req_type r \<noteq> Some ''field''"
    using that unfolding get_after assms(8)
    by (simp add: update_event_def Let_def)
  have logged: "\<exists>stored. d' (sessionId r) = Some stored \<and>
          sd_updates (row_data stored) =
            Some (filter (\<lambda>u. now - upd_timestamp u < maxInactive)
                    (or_else (sd_updates (row_data session)) []) @ [ev])"
    if "now - upd_timestamp ev < maxInactive"
    using that d' by (intro exI [of _ ?stored]) simp
  let ?n = "snd (poll_refresh clk2 p ?sd)"
  let ?us = "filter (\<lambda>u. upd_timestamp u > num_or (req_lastUpdate p) 0)
               (or_else (sd_updates (poll_prune (clk2 ?n) (fst (poll_refresh clk2 p ?sd)))) [])"
  have rd: "row_data ?stored = ?sd" by simp
  have "fst (POST e2 rnd2 clk2 d' p) = fst (handle_poll clk2 d' p)"
    using assms(5) by (simp add: POST_def)
  also have "\<dots> =
      ok (Polled ?us
            (length (or_else (sd_users (poll_prune (clk2 ?n) (fst (poll_refresh clk2 p ?sd)))) []))
            (clk2 (Suc ?n)))"
    by (simp only: handle_poll_found [where d = d' and r = p and session = ?stored, OF at_p]
          rd fst_conv)
  finally have poll_after: "fst (POST e2 rnd2 clk2 d' p) =
      ok (Polled ?us
            (length (or_else (sd_users (poll_prune (clk2 ?n) (fst (poll_refresh clk2 p ?sd)))) []))
            (clk2 (Suc ?n)))" .
  have polled: "\<exists>us c t. fst (POST e2 rnd2 clk2 d' p) = ok (Polled us c t) \<and> ev \<in> set us"
    if fresh: "now - upd_timestamp ev < maxInactive"
      and "clk2 0 - upd_timestamp ev < maxInactive" "clk2 1 - upd_timestamp ev < maxInactive"
      and cursor: "upd_timestamp ev > num_or (req_lastUpdate p) 0"
  proof -
    have "clk2 ?n - upd_timestamp ev < maxInactive"
      using poll_refresh_readings [of clk2 p ?sd] that(2,3) by auto
    then have "ev \<in> set (or_else (sd_updates (poll_prune (clk2 ?n) (fst (poll_refresh clk2 p ?sd)))) [])"
      using fresh by (simp add: poll_prune_updates poll_refresh_updates or_else_def)
    then have "ev \<in> set ?us"
      using cursor by simp
    with poll_after show ?thesis by blast
  qed
  have exact: "\<exists>stored. d' (sessionId r) = Some stored \<and>
       sd_updates (row_data stored) =
         Some (filter (\<lambda>u. now - upd_timestamp u < maxInactive)
                 (or_else (sd_updates (row_data session)) []) @
               (if now - upd_timestamp ev < maxInactive then [ev] else []))"
    using d' by (intro exI [of _ ?stored]) simp
  have trimmed: "\<exists>stored. d' (sessionId r) = Some stored \<and>
          sd_updates (row_data stored) =
            Some (filter (\<lambda>u. now - upd_timestamp u < maxInactive)
                    (or_else (sd_updates (row_data session)) [])) \<and>
          ev \<notin> set (or_else (sd_updates (row_data stored)) [])"
    if "\<not> now - upd_timestamp ev < maxInactive"
    using that d' by (intro exI [of _ ?stored]) (simp add: or_else_def)
  have unseen: "\<exists>us c t. fst (POST e2 rnd2 clk2 d' p) = ok (Polled us c t) \<and> ev \<notin> set us"
    if stale: "\<not> now - upd_timestamp ev < maxInactive"
  proof -
    have "sd_updates ?sd =
        Some (filter (\<lambda>u. now - upd_timestamp u < maxInactive)
                (or_else (sd_updates (row_data session)) [] @ [ev]))"
      by simp
    then have "or_else (sd_updates ?sd) [] =
        filter (\<lambda>u. now - upd_timestamp u < maxInactive)
          (or_else (sd_updates (row_data session)) [] @ [ev])"
      by (simp only: or_else_def option.case)
    then have "ev \<notin> set (or_else (sd_updates ?sd) [])"
      using stale by (simp only: set_filter mem_Collect_eq) blast
    then have "ev \<notin> set (or_else (sd_updates (poll_prune (clk2 ?n) (fst (poll_refresh clk2 p ?sd)))) [])"
      using poll_updates_subset [of "clk2 ?n" clk2 p ?sd] by blast
    then have "ev \<notin> set ?us"
      by (simp only: set_filter mem_Collect_eq) blast
    with poll_after show ?thesis by blast
  qed
  show ?thesis
    using resp field full logged polled exact trimmed unseen by blast
qed

theorem update_field_vs_full_witness:
  "fst (POST env0 (fixed_random 0) (ticking 7000)
          (snd (POST env0 (fixed_random 0) (ticking 5000) [''AAAAAAAA'' \<mapsto> session0 [] []]
                ((request0 ''update'')
                   \<lparr>req_type := Some ''field'', req_field := Some ''inspection.tag'',
                     req_value := Some (JStr ''T-1'')\<rparr>)))
          (request0 ''get''))
     = ok (Got (Some JNull) 0 ''AAAAAAAA'') \<and>
   fst (POST env0 (fixed_random 0) (ticking 6000)
          (snd (POST env0 (fixed_random 0) (ticking 5000) [''AAAAAAAA'' \<mapsto> session0 [] []]
                ((request0 ''update'')
                   \<lparr>req_type := Some ''field'', req_field := Some ''inspection.tag'',
                     req_value := Some (JStr ''T-1'')\<rparr>)))
          ((request0 ''poll'')\<lparr>userId := Some ''bob''\<rparr>))
     = ok (Polled [tag_event 5000] 0 6001) \<and>
   fst (POST env0 (fixed_random 0) (ticking 7000)
          (snd (POST env0 (fixed_random 0) (ticking 5000) [''AAAAAAAA'' \<mapsto> session0 [] []]
                ((request0 ''update'')
                   \<lparr>req_type := Some ''full'',
                     req_data := Some (JObj [(''conclusion'', JStr ''done'')])\<rparr>)))
          (request0 ''get''))
     = ok (Got (Some (JObj [(''conclusion'', JStr ''done'')])) 0 ''AAAAAAAA'') \<and>
   map_option (\<lambda>s. sd_updates (row_data s))
     (snd (POST env0 (fixed_random 0) (ticking 5000) [''AAAAAAAA'' \<mapsto> session0 [] []]
             ((request0 ''update'')
                \<lparr>req_type := Some ''field'', req_field := Some ''inspection.tag'',
                  req_value := Some (JStr ''T-1'')\<rparr>)) ''AAAAAAAA'')
     = Some (Some [tag_event 5000]) \<and>
   map_option (\<lambda>s. sd_updates (row_data s))
     (snd (POST env0 (fixed_random 0) (ticking 1000000)
             [''AAAAAAAA'' \<mapsto> session0 [] [done_event 999000]]
             ((request0 ''update'')
                \<lparr>req_type := Some ''field'', req_field := Some ''inspection.tag'',
                  req_value := Some (JStr ''T-1''), req_timestamp := Some 1\<rparr>)) ''AAAAAAAA'')
     = Some (Some [done_event 999000]) \<and>
   fst (POST env0 (fixed_random 0) (ticking 1000010)
          (snd (POST env0 (fixed_random 0) (ticking 1000000)
                  [''AAAAAAAA'' \<mapsto> session0 [] [done_event 999000]]
                  ((request0 ''update'')
                     \<lparr>req_type := Some ''field'', req_field := Some ''inspection.tag'',
                       req_value := Some (JStr ''T-1''), req_timestamp := Some 1\<rparr>)))
          ((request0 ''poll'')\<lparr>userId := Some ''bob''\<rparr>))
     = ok (Polled [done_event 999000] 0 1000011)"
proof -
  let ?d = "[''AAAAAAAA'' \<mapsto> session0 [] []]"
  let ?d1 = "[''AAAAAAAA'' \<mapsto> session0 [] [done_event 999000]]"
  let ?old = "(request0 ''update'') \<lparr>req_type := Some ''field'', req_field := Some ''inspection.tag'', req_value := Some (JStr ''T-1''), req_timestamp := Some 1\<rparr>"
  let ?field = "(request0 ''update'') \<lparr>req_type := Some ''field'', req_field := Some ''inspection.tag'', req_value := Some (JStr ''T-1'')\<rparr>"
  let ?full = "(request0 ''update'') \<lparr>req_type := Some ''full'', req_data := Some (JObj [(''conclusion'', JStr ''done'')])\<rparr>"
  let ?poll = "(request0 ''poll'')\<lparr>userId := Some ''bob''\<rparr>"
  have found: "?d (sessionId ?field) = Some (session0 [] [])"
    and found': "?d (sessionId ?full) = Some (session0 [] [])"
    and found'': "?d1 (sessionId ?old) = Some (session0 [] [done_event 999000])"
    by (simp_all add: request0_def)
  have acts: "action ?field = ''update''" "action ?full = ''update''"
    "action (request0 ''get'') = ''get''" "action ?poll = ''poll''" "action ?old = ''update''"
    by (simp_all add: request0_def)
  have same: "sessionId (request0 ''get'') = sessionId ?field"
    "sessionId ?poll = sessionId ?field"
    "sessionId (request0 ''get'') = sessionId ?full"
    "sessionId ?poll = sessionId ?full"
    "sessionId (request0 ''get'') = sessionId ?old"
    "sessionId ?poll = sessionId ?old"
    by (simp_all add: request0_def)
  note old = update_field_vs_full [where d = ?d1 and r = ?old
        and session = "session0 [] [done_event 999000]"
        and g = "request0 ''get''" and p = ?poll
        and ?e1.0 = env0 and ?rnd1.0 = "fixed_random 0" and ?clk1.0 = "ticking 1000010"
        and ?e2.0 = env0 and ?rnd2.0 = "fixed_random 0" and ?clk2.0 = "ticking 1000010"
        and e = env0 and rnd = "fixed_random 0" and clk = "ticking 1000000",
      OF found'' acts(5) acts(3) same(5) acts(4) same(6) surjective_pairing refl refl]
  note field = update_field_vs_full [where d = ?d and r = ?field and session = "session0 [] []"
        and g = "request0 ''get''" and p = ?poll
        and ?e1.0 = env0 and ?rnd1.0 = "fixed_random 0" and ?clk1.0 = "ticking 7000"
        and ?e2.0 = env0 and ?rnd2.0 = "fixed_random 0" and ?clk2.0 = "ticking 6000"
        and e = env0 and rnd = "fixed_random 0" and clk = "ticking 5000",
      OF found acts(1) acts(3) same(1) acts(4) same(2) surjective_pairing refl refl]
  note full = update_field_vs_full [where d = ?d and r = ?full and session = "session0 [] []"
        and g = "request0 ''get''" and p = ?poll
        and ?e1.0 = env0 and ?rnd1.0 = "fixed_random 0" and ?clk1.0 = "ticking 7000"
        and ?e2.0 = env0 and ?rnd2.0 = "fixed_random 0" and ?clk2.0 = "ticking 6000"
        and e = env0 and rnd = "fixed_random 0" and clk = "ticking 5000",
      OF found' acts(2) acts(3) same(3) acts(4) same(4) surjective_pairing refl refl]
  show ?thesis
    using field full old
    by (simp add: protocol_defs example_defs)
qed

text \<open>
  The claim as it is written fails for a poll that comes more than 5 minutes after the
  field event: the event was logged at 5000 and the poll at 400000 answers with no
  update.
\<close>

theorem update_field_vs_full_counterexample:
  "fst (POST env0 (fixed_random 0) (ticking 400000)
          (snd (POST env0 (fixed_random 0) (ticking 5000) [''AAAAAAAA'' \<mapsto> session0 [] []]
                ((request0 ''update'')
                   \<lparr>req_type := Some ''field'', req_field := Some ''inspection.tag'',
                     req_value := Some (JStr ''T-1'')\<rparr>)))
          ((request0 ''poll'')\<lparr>userId := Some ''bob''\<rparr>))
     = ok (Polled [] 0 400001)"
  by (simp add: protocol_defs example_defs)

section \<open>Polling\<close>

text \<open>
  Claim C4, amended. For a \<^verbatim>\<open>poll\<close> on a stored session whose roster binds no key twice,
  with \<open>now\<close> the clock read after the caller's \<^verbatim>\<open>lastSeen\<close> was refreshed: the stored
  roster is the refreshed roster without the participants whose \<^verbatim>\<open>lastSeen\<close> is more than
  5 minutes before \<open>now\<close>; the stored log is the log without the entries that are 5
  minutes old or older, so no stored entry is more than 5 minutes old; the response holds
  exactly the stored entries whose timestamp is greater than the \<^verbatim>\<open>lastUpdate\<close> cursor.
  When the log holds a single entry, a cursor equal to its timestamp gives no update, and
  a cursor one less gives exactly that entry if the entry is less than 5 minutes old.
\<close>

theorem poll_prunes_and_filters:
  assumes "d (sessionId r) = Some session"
    and "action r = ''poll''"
    and "distinct (map fst (or_else (sd_users (row_data session)) []))"
    and "poll_refresh clk r (row_data session) = (refreshed, n)"
    and "now = clk n"
    and "POST e rnd clk d r = (resp, d')"
  shows "\<exists>stored.
    d' (sessionId r) = Some (session\<lparr>row_data := stored\<rparr>) \<and>
    sd_users stored =
      map_option (filter (\<lambda>p. \<not> (now - lastSeen (snd p) > maxInactive))) (sd_users refreshed) \<and>
    sd_updates stored =
      map_option (filter (\<lambda>u. now - upd_timestamp u < maxInactive)) (sd_updates (row_data session)) \<and>
    (\<forall>u \<in> set (or_else (sd_updates stored) []). \<not> (now - upd_timestamp u > maxInactive)) \<and>
    resp = ok (Polled
                 (filter (\<lambda>u. upd_timestamp u > num_or (req_lastUpdate r) 0)
                    (or_else (sd_updates stored) []))
                 (length (or_else (sd_users stored) []))
                 (clk (Suc n))) \<and>
    (\<forall>u. sd_updates (row_data session) = Some [u] \<and> req_lastUpdate r = Some (upd_timestamp u) \<longrightarrow>
         resp = ok (Polled [] (length (or_else (sd_users stored) [])) (clk (Suc n)))) \<and>
    (\<forall>u. sd_updates (row_data session) = Some [u] \<and> req_lastUpdate r = Some (upd_timestamp u - 1) \<and>
         now - upd_timestamp u < maxInactive \<longrightarrow>
         resp = ok (Polled [u] (length (or_else (sd_users stored) [])) (clk (Suc n))))"
proof -
  let ?stored = "poll_prune now refreshed"
  have post: "POST e rnd clk d r = handle_poll clk d r"
    using assms(2) by (simp add: POST_def)
  have run: "resp = ok (Polled
                 (filter (\<lambda>u. upd_timestamp u > num_or (req_lastUpdate r) 0)
                    (or_else (sd_updates ?stored) []))
                 (length (or_else (sd_users ?stored) []))
                 (clk (Suc n)))"
    and d': "d' = d(sessionId r \<mapsto> session\<lparr>row_data := ?stored\<rparr>)"
    using assms(4,5,6)
    unfolding post handle_poll_found [where d = d and r = r and session = session, OF assms(1)]
    by simp_all
  have refreshed: "refreshed = fst (poll_refresh clk r (row_data session))"
    using assms(4) by simp
  have "distinct (map fst (or_else (sd_users refreshed) []))"
    unfolding refreshed using assms(3) by (rule poll_refresh_distinct)
  then have users: "sd_users ?stored =
      map_option (filter (\<lambda>p. \<not> (now - lastSeen (snd p) > maxInactive))) (sd_users refreshed)"
    by (rule poll_prune_users)
  have updates: "sd_updates ?stored =
      map_option (filter (\<lambda>u. now - upd_timestamp u < maxInactive)) (sd_updates (row_data session))"
    by (simp add: poll_prune_updates refreshed poll_refresh_updates)
  have old: "\<forall>u \<in> set (or_else (sd_updates ?stored) []). \<not> (now - upd_timestamp u > maxInactive)"
    unfolding updates by (cases "sd_updates (row_data session)") (auto simp: or_else_def)
  have cursor: "num_or (Some t) 0 = t" for t
    by (simp add: num_or_def)
  have single_same: "resp = ok (Polled [] (length (or_else (sd_users ?stored) [])) (clk (Suc n)))"
    if "sd_updates (row_data session) = Some [u]" "req_lastUpdate r = Some (upd_timestamp u)" for u
    using that unfolding run updates by (simp add: or_else_def cursor)
  have single_less: "resp = ok (Polled [u] (length (or_else (sd_users ?stored) [])) (clk (Suc n)))"
    if "sd_updates (row_data session) = Some [u]" "req_lastUpdate r = Some (upd_timestamp u - 1)"
      "now - upd_timestamp u < maxInactive" for u
    using that unfolding run updates by (simp add: or_else_def cursor)
  have at: "d' (sessionId r) = Some (session\<lparr>row_data := ?stored\<rparr>)"
    using d' by simp
  have same: "\<forall>u. sd_updates (row_data session) = Some [u] \<and>
      req_lastUpdate r = Some (upd_timestamp u) \<longrightarrow>
      resp = ok (Polled [] (length (or_else (sd_users ?stored) [])) (clk (Suc n)))"
    using single_same by blast
  have less: "\<forall>u. sd_updates (row_data session) = Some [u] \<and>
      req_lastUpdate r = Some (upd_timestamp u - 1) \<and> now - upd_timestamp u < maxInactive \<longrightarrow>
      resp = ok (Polled [u] (length (or_else (sd_users ?stored) [])) (clk (Suc n)))"
    using single_less by blast
  show ?thesis
    by (rule exI [of _ ?stored]) (intro conjI at users updates old run same less)
qed

theorem poll_prunes_and_filters_witness:
  "fst (POST env0 (fixed_random 0) (ticking 400000)
          [''AAAAAAAA'' \<mapsto> session0 [participant ''ana'' 2001, participant ''bob'' 100] [done_event 399000]]
          ((request0 ''poll'')\<lparr>req_lastUpdate := Some 398999\<rparr>))
     = ok (Polled [done_event 399000] 1 400002) \<and>
   map_option (\<lambda>s. sd_users (row_data s))
     (snd (POST env0 (fixed_random 0) (ticking 400000)
             [''AAAAAAAA'' \<mapsto> session0 [participant ''ana'' 2001, participant ''bob'' 100] [done_event 399000]]
             ((request0 ''poll'')\<lparr>req_lastUpdate := Some 398999\<rparr>)) ''AAAAAAAA'')
     = Some (Some [participant ''ana'' 400000])"
proof -
  let ?row = "session0 [participant ''ana'' 2001, participant ''bob'' 100] [done_event 399000]"
  let ?d = "[''AAAAAAAA'' \<mapsto> ?row]"
  let ?poll = "(request0 ''poll'')\<lparr>req_lastUpdate := Some 398999\<rparr>"
  have found: "?d (sessionId ?poll) = Some ?row"
    by (simp add: request0_def)
  have act: "action ?poll = ''poll''"
    by (simp add: request0_def)
  have wf: "distinct (map fst (or_else (sd_users (row_data ?row)) []))"
    by (simp add: or_else_def example_defs)
  note poll = poll_prunes_and_filters [where d = ?d and r = ?poll and session = ?row
        and e = env0 and rnd = "fixed_random 0" and clk = "ticking 400000",
      OF found act wf surjective_pairing refl surjective_pairing]
  show ?thesis
    using poll
    by (simp add: protocol_defs example_defs)
qed

text \<open>
  The claim as it is written fails when the only logged update is 5 minutes old or
  older: logged at 5000 and polled at 1000000 with the cursor one less than its
  timestamp, the poll answers with no update.
\<close>

theorem poll_prunes_and_filters_counterexample:
  "sd_updates (row_data (session0 [] [done_event 5000])) = Some [done_event 5000] \<and>
   req_lastUpdate ((request0 ''poll'')\<lparr>req_lastUpdate := Some 4999\<rparr>)
     = Some (upd_timestamp (done_event 5000) - 1) \<and>
   fst (POST env0 (fixed_random 0) (ticking 1000000)
          [''AAAAAAAA'' \<mapsto> session0 [] [done_event 5000]]
          ((request0 ''poll'')\<lparr>req_lastUpdate := Some 4999\<rparr>))
     = ok (Polled [] 0 1000001)"
  by (simp add: protocol_defs example_defs)

end
